theory Spec2Isabelle
  imports Main
begin

section \<open>The world the entrypoint scripts act on\<close>

text \<open>
  The repository ships two supervising entrypoints, both shell scripts: the one embedded in
  \<^verbatim>\<open>Dockerfile\<close> (modes \<^verbatim>\<open>off\<close>, \<^verbatim>\<open>update\<close> and watch-only) and
  \<^verbatim>\<open>docker/git-entrypoint.sh\<close> (clone or pull under \<^verbatim>\<open>flock\<close>, a watcher subshell
  and a final \<^verbatim>\<open>wait\<close>). Both are modelled over one state: what the checkout and the
  process table look like, the shell variables, and the trace of the commands the script has run.
  Whatever the scripts cannot decide themselves (does the fetch work, does pip succeed, does
  the child exit) is an input of type \<open>outside\<close>, one value for each poll interval.
\<close>

type_synonym commit = string
type_synonym pid = nat

datatype signal = SIGTERM | SIGKILL

datatype event =
    Echo string
  | GitSetUrl
  | GitFetch bool
  | GitClone bool
  | GitReset string bool
  | PipInstall bool
  | Flock
  | Unlock
  | Kill signal pid
  | Wait pid
  | Spawn pid

record state =
  git_dir :: bool
  head :: "commit option"
  head_echo :: string
  remote_ref :: "commit option"
  ref_echo :: string
  manifest :: "string option"
  req_hash :: "string option"
  pid_file :: "pid option"
  next_pid :: pid
  PREV :: string
  APP_PID :: pid
  trace :: "event list"

text \<open>
  \<open>git_dir\<close>: the working directory has a \<^verbatim>\<open>.git\<close>.
  \<open>head\<close> and \<open>remote_ref\<close> are the commits that \<^verbatim>\<open>git rev-parse HEAD\<close> and
  \<^verbatim>\<open>git rev-parse REMOTE/BRANCH\<close> resolve the names to, \<open>None\<close> when the command fails.
  A failing \<^verbatim>\<open>git rev-parse\<close> may still have written to its standard output: given a
  name it cannot resolve it prints that name and a newline before it fails, and it prints
  nothing when it fails before looking at the name (no usable repository). \<open>head_echo\<close>
  and \<open>ref_echo\<close> are that output for the two names; the \<^verbatim>\<open>|| echo\<close> that follows the
  command in the scripts appends its word to it. \<open>manifest\<close> is the sha256 digest of \<^verbatim>\<open>requirements.txt\<close>, \<open>None\<close> when
  the file is absent (the scripts use the file through its existence and its digest only);
  \<open>req_hash\<close> is the content of \<^verbatim>\<open>.req.hash\<close>; \<open>pid_file\<close> that of
  \<^verbatim>\<open>/tmp/app.pid\<close>. \<open>next_pid\<close> is the pid the next background job gets. \<open>PREV\<close> and
  \<open>APP_PID\<close> are the shell variables of these names. \<open>trace\<close> lists the commands run so
  far, with their outcome where the script goes on either way; an \<open>Echo\<close> carries the line
  printed, without the time stamp and without the parts that quote configuration the model
  leaves out (the command line, the branch, the directory).
\<close>

datatype fetch_outcome = FetchFails | Fetched "commit option"

record outside =
  sleep_ok :: bool
  moved :: "commit option"
  fetch :: fetch_outcome
  clone :: "commit option"
  reset_ok :: bool
  tree_manifest :: "string option"
  pip_ok :: bool
  term_exit :: "nat option"
  child_exit :: "nat option"

text \<open>
  \<open>moved\<close>: another container has moved HEAD of the shared checkout during the sleep.
  \<open>fetch\<close>: the fetch fails, or succeeds and leaves the remote-tracking ref as given.
  \<open>clone\<close>: the commit a successful clone checks out. \<open>tree_manifest\<close>: the manifest
  of the commit that a reset, a clone or the other container checks out.
  \<open>term_exit\<close>: \<open>Some c\<close> when the child has exited with status \<open>c\<close> by the time the
  supervisor waits for it after the signal, \<open>None\<close> when it keeps running.
  \<open>child_exit\<close>: the child exits by itself during this interval.
\<close>

datatype 'a outcome = Done 'a | Blocked 'a

datatype result = Exited nat state | Running state | Stuck state

datatype launch = NotFound | NotExecutable | Started

text \<open>
  A script that hangs for ever in \<^verbatim>\<open>wait\<close> is the outcome \<open>Blocked\<close> of a tick and the
  result \<open>Stuck\<close> of a run; a run that has used up its intervals and is still polling is
  \<open>Running\<close>. \<open>launch\<close> says whether the application command can be run at all: the
  shell answers a command it cannot find with status 127 and one it cannot execute with 126.
\<close>

fun final :: "'a outcome \<Rightarrow> 'a" where
  "final (Done s) = s"
| "final (Blocked s) = s"

definition emit :: "event \<Rightarrow> state \<Rightarrow> state" where
  "emit e s = s\<lparr>trace := trace s @ [e]\<rparr>"

definition others :: "outside \<Rightarrow> state \<Rightarrow> state" where
  "others env s =
     (case moved env of
        None \<Rightarrow> s
      | Some c \<Rightarrow> s\<lparr>head := Some c, manifest := tree_manifest env\<rparr>)"

definition git_fetch :: "outside \<Rightarrow> state \<Rightarrow> state" where
  "git_fetch env s =
     (case fetch env of
        FetchFails \<Rightarrow> emit (GitFetch False) s
      | Fetched r \<Rightarrow> emit (GitFetch True) (s\<lparr>remote_ref := r\<rparr>))"

definition git_reset :: "outside \<Rightarrow> string \<Rightarrow> commit option \<Rightarrow> state \<Rightarrow> state" where
  "git_reset env arg target s =
     (if reset_ok env \<and> target \<noteq> None
      then emit (GitReset arg True) (s\<lparr>head := target, manifest := tree_manifest env\<rparr>)
      else emit (GitReset arg False) s)"

definition git_clone :: "outside \<Rightarrow> state \<Rightarrow> state" where
  "git_clone env s =
     (case clone env of
        None \<Rightarrow> emit (GitClone False) s
      | Some c \<Rightarrow> emit (GitClone True)
          (s\<lparr>git_dir := True, head := Some c, remote_ref := Some c,
             manifest := tree_manifest env\<rparr>))"

definition spawn :: "state \<Rightarrow> state" where
  "spawn s = emit (Spawn (next_pid s)) (s\<lparr>APP_PID := next_pid s, next_pid := Suc (next_pid s)\<rparr>)"

fun await :: "outside list \<Rightarrow> state \<Rightarrow> result" where
  "await [] s = Running s"
| "await (env # envs) s =
     (case child_exit env of Some c \<Rightarrow> Exited c s | None \<Rightarrow> await envs s)"

section \<open>The entrypoint embedded in the Dockerfile\<close>

text \<open>
  The bash script that follows the three Dockerfiles in \<^verbatim>\<open>src/Dockerfile\<close> (lines 67 to
  143). \<open>run_app\<close> is \<^verbatim>\<open>exec "${APP_CMD[@]}"\<close>: the shell becomes the application, so the
  entrypoint's exit status is the application's. \<open>restart_app\<close> is the sequence
  \<^verbatim>\<open>kill -TERM "$APP_PID" || true; wait "$APP_PID" || true; "${APP_CMD[@]}" & APP_PID=$!;
  PREV="$NEW"\<close> that ends both branches of the loop body. \<open>tick\<close> is the loop
  body, \<open>loop\<close> is \<^verbatim>\<open>while sleep "$POLL"; do ... done\<close> over the intervals given; when
  \<^verbatim>\<open>sleep\<close> fails the loop ends and the script with it, with status 0. Any \<open>MODE\<close> other
  than \<open>off\<close> and \<open>update\<close> takes the watch-only branch.
\<close>

definition log :: "string \<Rightarrow> state \<Rightarrow> state" where
  "log msg s = emit (Echo (''[git] '' @ msg)) s"

definition run_app :: "launch \<Rightarrow> outside list \<Rightarrow> state \<Rightarrow> result" where
  "run_app app envs s =
     (let s1 = log ''start app'' s in
      case app of
        NotFound \<Rightarrow> Exited 127 s1
      | NotExecutable \<Rightarrow> Exited 126 s1
      | Started \<Rightarrow> await envs s1)"

definition current_head :: "state \<Rightarrow> string" where
  "current_head s = (case head s of Some h \<Rightarrow> h | None \<Rightarrow> head_echo s @ ''none'')"

definition origin_head :: "state \<Rightarrow> string" where
  "origin_head s = (case remote_ref s of Some h \<Rightarrow> h | None \<Rightarrow> ref_echo s @ ''none'')"

definition install_deps :: "outside \<Rightarrow> state \<Rightarrow> state" where
  "install_deps env s =
     (if manifest s \<noteq> None
      then emit (PipInstall (pip_ok env)) (log ''installing requirements...'' s)
      else s)"

definition restart_app :: "outside \<Rightarrow> string \<Rightarrow> state \<Rightarrow> state outcome" where
  "restart_app env NEW s =
     (let s1 = emit (Kill SIGTERM (APP_PID s)) s in
      case term_exit env of
        None \<Rightarrow> Blocked s1
      | Some c \<Rightarrow> Done ((spawn (emit (Wait (APP_PID s1)) s1))\<lparr>PREV := NEW\<rparr>))"

definition tick :: "string \<Rightarrow> outside \<Rightarrow> state \<Rightarrow> state outcome" where
  "tick MODE env s =
     (if MODE = ''update'' then
        (let s1 = git_fetch env s; NEW = origin_head s1 in
         if NEW \<noteq> PREV s1 \<and> NEW \<noteq> ''none'' then
           restart_app env NEW
             (install_deps env
               (git_reset env NEW (remote_ref s1)
                 (log (''update: '' @ PREV s1 @ '' -> '' @ NEW) s1)))
         else Done s1)
      else
        (let NEW = current_head s in
         if NEW \<noteq> PREV s then
           restart_app env NEW
             (install_deps env
               (log (''detected change: '' @ PREV s @ '' -> '' @ NEW @ '' (watch-only)'') s))
         else Done s))"

fun loop :: "string \<Rightarrow> outside list \<Rightarrow> state \<Rightarrow> result" where
  "loop MODE [] s = Running s"
| "loop MODE (env # envs) s =
     (if \<not> sleep_ok env then Exited 0 s
      else case tick MODE env (others env s) of
             Blocked b \<Rightarrow> Stuck b
           | Done s' \<Rightarrow> loop MODE envs s')"

definition entrypoint :: "string \<Rightarrow> launch \<Rightarrow> outside list \<Rightarrow> state \<Rightarrow> result" where
  "entrypoint MODE app envs s =
     (if MODE = ''off'' then run_app app envs s
      else if \<not> git_dir s then
        run_app app envs (log ''no .git here -> running app without watcher'' s)
      else
        (let s1 = spawn s;
             s2 = s1\<lparr>PREV := current_head s1\<rparr>;
             s3 = log (''mode='' @ MODE @ '' prev='' @ PREV s2) s2
         in loop MODE envs s3))"

section \<open>docker/git-entrypoint.sh\<close>

text \<open>
  \<^verbatim>\<open>src/docker/git-entrypoint.sh\<close>. The script runs under \<^verbatim>\<open>set -e\<close>, but \<open>update_repo_once\<close> is only ever called as
  \<^verbatim>\<open>update_repo_once || true\<close> and as the condition of an \<^verbatim>\<open>if\<close>, where the shell
  ignores \<^verbatim>\<open>-e\<close> for the whole function body and for \<open>install_reqs\<close> called from it:
  a failing command there does not stop anything, the next command runs. The lock file
  \<^verbatim>\<open>/.gitpull.lock\<close> is taken to be creatable. \<open>watcher\<close> is the background subshell
  seen from the final \<^verbatim>\<open>wait "$APP_PID"\<close>: the run ends as soon as the child has exited,
  with the child's status; when \<^verbatim>\<open>sleep\<close> fails the subshell dies (\<^verbatim>\<open>set -e\<close>) and
  only the \<^verbatim>\<open>wait\<close> remains.
\<close>

definition echo :: "string \<Rightarrow> state \<Rightarrow> state" where
  "echo msg s = emit (Echo msg) s"

definition LOCAL :: "state \<Rightarrow> string" where
  "LOCAL s = (case head s of Some h \<Rightarrow> h | None \<Rightarrow> head_echo s @ ''0'')"

definition REMOTE :: "state \<Rightarrow> string" where
  "REMOTE s = (case remote_ref s of Some h \<Rightarrow> h | None \<Rightarrow> ref_echo s @ ''1'')"

definition install_reqs :: "outside \<Rightarrow> state \<Rightarrow> state" where
  "install_reqs env s =
     (case manifest s of
        None \<Rightarrow> s
      | Some cur \<Rightarrow>
          if req_hash s = None \<or> Some cur \<noteq> req_hash s
          then (emit (PipInstall (pip_ok env))
                  (echo ''[deps] installing requirements...'' s))\<lparr>req_hash := Some cur\<rparr>
          else s)"

definition update_repo_once :: "string \<Rightarrow> outside \<Rightarrow> state \<Rightarrow> nat \<times> state" where
  "update_repo_once REPO_URL env s =
     (if REPO_URL = [] then (0, s)
      else if \<not> git_dir s then
        (1, install_reqs env (git_clone env (echo (''[git] clone '' @ REPO_URL) s)))
      else
        (let s1 = emit Flock s;
             s2 = emit GitSetUrl s1;
             s3 = git_fetch env s2
         in if LOCAL s3 \<noteq> REMOTE s3 then
              (1, emit Unlock
                    (install_reqs env
                      (git_reset env ''origin/BRANCH'' (remote_ref s3)
                        (echo (''[git] update: '' @ LOCAL s3 @ '' -> '' @ REMOTE s3) s3))))
            else (0, emit Unlock s3)))"

fun watcher :: "string \<Rightarrow> outside list \<Rightarrow> state \<Rightarrow> result" where
  "watcher REPO_URL [] s = Running s"
| "watcher REPO_URL (env # envs) s =
     (case child_exit env of
        Some c \<Rightarrow> Exited c s
      | None \<Rightarrow>
          if \<not> sleep_ok env then await envs s
          else
            (let r = update_repo_once REPO_URL env (others env s) in
             if fst r = 0 then watcher REPO_URL envs (snd r)
             else
               (let s1 = echo ''[git] changes detected -> terminating app for restart'' (snd r);
                    s2 = emit (Kill SIGTERM (case pid_file s1 of Some p \<Rightarrow> p | None \<Rightarrow> 0)) s1
                in case term_exit env of
                     Some c \<Rightarrow> Exited c s2
                   | None \<Rightarrow> watcher REPO_URL envs s2)))"

definition git_entrypoint ::
  "string \<Rightarrow> launch \<Rightarrow> outside \<Rightarrow> outside list \<Rightarrow> state \<Rightarrow> result" where
  "git_entrypoint REPO_URL app env0 envs s =
     (let s1 = snd (update_repo_once REPO_URL env0 s);
          s2 = echo ''[app] starting'' s1;
          s3 = spawn s2;
          s4 = s3\<lparr>pid_file := Some (APP_PID s3)\<rparr>
      in case app of
           NotFound \<Rightarrow> Exited 127 s4
         | NotExecutable \<Rightarrow> Exited 126 s4
         | Started \<Rightarrow> watcher REPO_URL envs s4)"

section \<open>Several supervisors on one checkout\<close>

text \<open>
  The block of \<^verbatim>\<open>update_repo_once\<close> between \<^verbatim>\<open>flock 9\<close> and the closing of file
  descriptor 9, one command at a time, for processes that open the same
  \<^verbatim>\<open>/.gitpull.lock\<close> and work on the same checkout. \<open>flock\<close> returns only when no
  other process holds the lock; until then the process stays where it is. Closing the
  descriptor at the end of the block (also on \<^verbatim>\<open>return 1\<close>) releases the lock.
  The \<open>journal\<close> records which process ran which command.
\<close>

datatype pc = AtFlock | AtSetUrl | AtFetch | AtCompare | AtReset | AtInstall | Returned nat

record proc =
  at :: pc
  env_of :: outside

record system =
  shared :: state
  holder :: "nat option"
  procs :: "proc list"
  journal :: "(nat \<times> event) list"

definition fresh :: "state \<Rightarrow> state \<Rightarrow> event list" where
  "fresh s s' = drop (length (trace s)) (trace s')"

definition move :: "nat \<Rightarrow> pc \<Rightarrow> state \<Rightarrow> system \<Rightarrow> system" where
  "move i next s' sys =
     sys\<lparr>shared := s',
         procs := (procs sys)[i := (procs sys ! i)\<lparr>at := next\<rparr>],
         journal := journal sys @ map (Pair i) (fresh (shared sys) s')\<rparr>"

definition step :: "nat \<Rightarrow> system \<Rightarrow> system" where
  "step i sys =
     (if length (procs sys) \<le> i then sys
      else
        (let s = shared sys; env = env_of (procs sys ! i) in
         case at (procs sys ! i) of
           AtFlock \<Rightarrow>
             (if holder sys = None
              then (move i AtSetUrl (emit Flock s) sys)\<lparr>holder := Some i\<rparr>
              else sys)
         | AtSetUrl \<Rightarrow> move i AtFetch (emit GitSetUrl s) sys
         | AtFetch \<Rightarrow> move i AtCompare (git_fetch env s) sys
         | AtCompare \<Rightarrow>
             (if LOCAL s \<noteq> REMOTE s
              then move i AtReset (echo (''[git] update: '' @ LOCAL s @ '' -> '' @ REMOTE s) s) sys
              else (move i (Returned 0) (emit Unlock s) sys)\<lparr>holder := None\<rparr>)
         | AtReset \<Rightarrow> move i AtInstall (git_reset env ''origin/BRANCH'' (remote_ref s) s) sys
         | AtInstall \<Rightarrow>
             (move i (Returned 1) (emit Unlock (install_reqs env s)) sys)\<lparr>holder := None\<rparr>
         | Returned rc \<Rightarrow> sys))"

fun run :: "nat list \<Rightarrow> system \<Rightarrow> system" where
  "run [] sys = sys"
| "run (i # sched) sys = run sched (step i sys)"

definition init :: "outside list \<Rightarrow> state \<Rightarrow> system" where
  "init envs s =
     \<lparr>shared = s, holder = None,
      procs = map (\<lambda>env. \<lparr>at = AtFlock, env_of = env\<rparr>) envs,
      journal = []\<rparr>"

section \<open>Reading traces\<close>

fun state_of :: "result \<Rightarrow> state" where
  "state_of (Exited c s) = s"
| "state_of (Running s) = s"
| "state_of (Stuck s) = s"

fun is_kill :: "event \<Rightarrow> bool" where
  "is_kill (Kill sg p) = True"
| "is_kill e = False"

fun is_spawn :: "event \<Rightarrow> bool" where
  "is_spawn (Spawn p) = True"
| "is_spawn e = False"

fun is_pip :: "event \<Rightarrow> bool" where
  "is_pip (PipInstall b) = True"
| "is_pip e = False"

fun is_echo :: "event \<Rightarrow> bool" where
  "is_echo (Echo m) = True"
| "is_echo e = False"

fun is_git :: "event \<Rightarrow> bool" where
  "is_git GitSetUrl = True"
| "is_git (GitFetch b) = True"
| "is_git (GitClone b) = True"
| "is_git (GitReset a b) = True"
| "is_git e = False"

fun in_cs :: "pc \<Rightarrow> bool" where
  "in_cs AtFlock = False"
| "in_cs (Returned rc) = False"
| "in_cs p = True"

text \<open>
  A journal is \<open>guarded\<close> from a lock state when every \<open>Flock\<close> in it finds the lock free,
  every \<open>Unlock\<close> is by the holder, and every git or pip command is run by the process
  that holds the lock at that moment.
\<close>

fun guarded :: "nat option \<Rightarrow> (nat \<times> event) list \<Rightarrow> bool" where
  "guarded h [] = True"
| "guarded h ((i, Flock) # js) = (h = None \<and> guarded (Some i) js)"
| "guarded h ((i, Unlock) # js) = (h = Some i \<and> guarded None js)"
| "guarded h ((i, e) # js) = ((is_git e \<or> is_pip e \<longrightarrow> h = Some i) \<and> guarded h js)"

fun holder_after :: "nat option \<Rightarrow> (nat \<times> event) list \<Rightarrow> nat option" where
  "holder_after h [] = h"
| "holder_after h ((i, Flock) # js) = holder_after (Some i) js"
| "holder_after h ((i, Unlock) # js) = holder_after None js"
| "holder_after h ((i, e) # js) = holder_after h js"

text \<open>
  What every reachable state of the processes satisfies: the journal so far is guarded, the
  lock is held by whom the journal says, and a process is inside the block exactly when it
  holds the lock.
\<close>

definition lock_inv :: "system \<Rightarrow> bool" where
  "lock_inv sys =
     (guarded None (journal sys)
      \<and> holder_after None (journal sys) = holder sys
      \<and> (\<forall>j<length (procs sys). in_cs (at (procs sys ! j)) = (holder sys = Some j)))"

section \<open>The two shapes of a tick\<close>

text \<open>
  Both branches of the loop body have the same shape: read a head (\<open>observed\<close>), decide
  whether it counts as a change (\<open>changed\<close>), and on a change prepare the checkout
  (\<open>prepared\<close>) and restart the application. Lemma \<open>tick_shape\<close> below proves that
  \<open>tick\<close> is exactly that.
\<close>

fun completed :: "'a outcome \<Rightarrow> bool" where
  "completed (Done s) = True"
| "completed (Blocked s) = False"

definition prepared :: "string \<Rightarrow> outside \<Rightarrow> state \<Rightarrow> state" where
  "prepared MODE env s =
     (if MODE = ''update'' then
        install_deps env
          (git_reset env (origin_head (git_fetch env s)) (remote_ref (git_fetch env s))
            (log (''update: '' @ PREV s @ '' -> '' @ origin_head (git_fetch env s))
               (git_fetch env s)))
      else
        install_deps env
          (log (''detected change: '' @ PREV s @ '' -> '' @ current_head s @ '' (watch-only)'') s))"

definition observed :: "string \<Rightarrow> outside \<Rightarrow> state \<Rightarrow> string" where
  "observed MODE env s = (if MODE = ''update'' then origin_head (git_fetch env s) else current_head s)"

definition changed :: "string \<Rightarrow> outside \<Rightarrow> state \<Rightarrow> bool" where
  "changed MODE env s =
     (observed MODE env s \<noteq> PREV s \<and> (MODE = ''update'' \<longrightarrow> observed MODE env s \<noteq> ''none''))"

section \<open>Sample inputs\<close>

text \<open>
  A checkout at \<open>abc123\<close> with its remote-tracking ref at the same commit, an application
  running as process 100, and an interval in which the remote moves to \<open>def456\<close> and every
  command works.
\<close>

definition checkout0 :: state where
  "checkout0 =
     \<lparr>git_dir = True, head = Some ''abc123'', head_echo = ''HEAD'' @ [CHR 0x0A],
      remote_ref = Some ''abc123'', ref_echo = ''origin/main'' @ [CHR 0x0A],
      manifest = Some ''d1'', req_hash = None, pid_file = Some 100, next_pid = 101,
      PREV = ''abc123'', APP_PID = 100, trace = []\<rparr>"

definition interval0 :: outside where
  "interval0 =
     \<lparr>sleep_ok = True, moved = None, fetch = Fetched (Some ''def456''), clone = None,
      reset_ok = True, tree_manifest = Some ''d1'', pip_ok = True, term_exit = Some 143,
      child_exit = None\<rparr>"

section \<open>Basic facts\<close>

lemma emit_fields:
  "trace (emit e s) = trace s @ [e]" "git_dir (emit e s) = git_dir s" "head (emit e s) = head s"
  "remote_ref (emit e s) = remote_ref s" "manifest (emit e s) = manifest s"
  "req_hash (emit e s) = req_hash s" "pid_file (emit e s) = pid_file s"
  "next_pid (emit e s) = next_pid s" "PREV (emit e s) = PREV s" "APP_PID (emit e s) = APP_PID s"
  "head_echo (emit e s) = head_echo s" "ref_echo (emit e s) = ref_echo s"
  by (simp_all add: emit_def)

lemma log_fields:
  "trace (log m s) = trace s @ [Echo (''[git] '' @ m)]" "git_dir (log m s) = git_dir s"
  "head (log m s) = head s" "remote_ref (log m s) = remote_ref s"
  "manifest (log m s) = manifest s" "req_hash (log m s) = req_hash s"
  "pid_file (log m s) = pid_file s" "next_pid (log m s) = next_pid s"
  "PREV (log m s) = PREV s" "APP_PID (log m s) = APP_PID s"
  "head_echo (log m s) = head_echo s" "ref_echo (log m s) = ref_echo s"
  by (simp_all add: log_def emit_fields)

lemma echo_fields:
  "trace (echo m s) = trace s @ [Echo m]" "git_dir (echo m s) = git_dir s"
  "head (echo m s) = head s" "remote_ref (echo m s) = remote_ref s"
  "manifest (echo m s) = manifest s" "req_hash (echo m s) = req_hash s"
  "pid_file (echo m s) = pid_file s" "next_pid (echo m s) = next_pid s"
  "PREV (echo m s) = PREV s" "APP_PID (echo m s) = APP_PID s"
  "head_echo (echo m s) = head_echo s" "ref_echo (echo m s) = ref_echo s"
  by (simp_all add: echo_def emit_fields)

lemma git_fetch_fields:
  "trace (git_fetch env s) = trace s @ [GitFetch (fetch env \<noteq> FetchFails)]"
  "remote_ref (git_fetch env s) = (case fetch env of FetchFails \<Rightarrow> remote_ref s | Fetched r \<Rightarrow> r)"
  "git_dir (git_fetch env s) = git_dir s" "head (git_fetch env s) = head s"
  "manifest (git_fetch env s) = manifest s" "req_hash (git_fetch env s) = req_hash s"
  "pid_file (git_fetch env s) = pid_file s" "next_pid (git_fetch env s) = next_pid s"
  "PREV (git_fetch env s) = PREV s" "APP_PID (git_fetch env s) = APP_PID s"
  "head_echo (git_fetch env s) = head_echo s" "ref_echo (git_fetch env s) = ref_echo s"
  by (simp_all add: git_fetch_def emit_def split: fetch_outcome.splits)

lemma git_reset_fields:
  "trace (git_reset env a t s) = trace s @ [GitReset a (reset_ok env \<and> t \<noteq> None)]"
  "head (git_reset env a t s) = (if reset_ok env \<and> t \<noteq> None then t else head s)"
  "manifest (git_reset env a t s) =
     (if reset_ok env \<and> t \<noteq> None then tree_manifest env else manifest s)"
  "remote_ref (git_reset env a t s) = remote_ref s"
  "git_dir (git_reset env a t s) = git_dir s" "req_hash (git_reset env a t s) = req_hash s"
  "pid_file (git_reset env a t s) = pid_file s" "next_pid (git_reset env a t s) = next_pid s"
  "PREV (git_reset env a t s) = PREV s" "APP_PID (git_reset env a t s) = APP_PID s"
  by (auto simp add: git_reset_def emit_def)

lemma install_deps_fields:
  "trace (install_deps env s) =
     trace s @ (if manifest s = None then []
                else [Echo ''[git] installing requirements...'', PipInstall (pip_ok env)])"
  "head (install_deps env s) = head s" "manifest (install_deps env s) = manifest s"
  "remote_ref (install_deps env s) = remote_ref s" "git_dir (install_deps env s) = git_dir s"
  "req_hash (install_deps env s) = req_hash s" "pid_file (install_deps env s) = pid_file s"
  "next_pid (install_deps env s) = next_pid s" "PREV (install_deps env s) = PREV s"
  "APP_PID (install_deps env s) = APP_PID s"
  by (simp_all add: install_deps_def log_def emit_def)

lemma restart_app_final:
  "trace (final (restart_app env NEW s)) =
     trace s @ Kill SIGTERM (APP_PID s)
       # (case term_exit env of None \<Rightarrow> [] | Some c \<Rightarrow> [Wait (APP_PID s), Spawn (next_pid s)])"
  "head (final (restart_app env NEW s)) = head s"
  "req_hash (final (restart_app env NEW s)) = req_hash s"
  "completed (restart_app env NEW s) = (term_exit env \<noteq> None)"
  by (simp_all add: restart_app_def spawn_def emit_def Let_def split: option.splits)

lemma restart_app_done:
  "term_exit env = Some c \<Longrightarrow>
   \<exists>s'. restart_app env NEW s = Done s' \<and> PREV s' = NEW \<and> APP_PID s' = next_pid s
        \<and> next_pid s' = Suc (next_pid s)"
  by (simp add: restart_app_def spawn_def emit_def Let_def)

lemma tick_shape:
  "tick MODE env s =
     (if changed MODE env s then restart_app env (observed MODE env s) (prepared MODE env s)
      else Done (if MODE = ''update'' then git_fetch env s else s))"
  by (simp add: tick_def changed_def observed_def prepared_def Let_def git_fetch_fields)

lemma prepared_fields:
  "APP_PID (prepared MODE env s) = APP_PID s" "next_pid (prepared MODE env s) = next_pid s"
  "req_hash (prepared MODE env s) = req_hash s"
  "filter is_kill (trace (prepared MODE env s)) = filter is_kill (trace s)"
  "filter is_spawn (trace (prepared MODE env s)) = filter is_spawn (trace s)"
  "length (trace s) \<le> length (trace (prepared MODE env s))"
  by (simp_all add: prepared_def install_deps_fields git_reset_fields log_fields git_fetch_fields)

lemma fresh_append: "trace s' = trace s @ evs \<Longrightarrow> fresh s s' = evs"
  by (simp add: fresh_def)

lemma prepared_trace: "\<exists>pre. trace (prepared MODE env s) = trace s @ pre
    \<and> filter is_kill pre = [] \<and> filter is_spawn pre = []"
  by (simp add: prepared_def install_deps_fields git_reset_fields log_fields git_fetch_fields)

lemma tick_changed_trace:
  assumes "changed MODE env s"
  shows "\<exists>pre. fresh s (final (tick MODE env s)) =
           pre @ Kill SIGTERM (APP_PID s)
             # (case term_exit env of None \<Rightarrow> [] | Some c \<Rightarrow> [Wait (APP_PID s), Spawn (next_pid s)])
         \<and> filter is_kill pre = [] \<and> filter is_spawn pre = []"
proof -
  obtain pre where p: "trace (prepared MODE env s) = trace s @ pre"
    "filter is_kill pre = []" "filter is_spawn pre = []"
    using prepared_trace by blast
  have "trace (final (tick MODE env s)) = trace s @ (pre @ Kill SIGTERM (APP_PID s)
             # (case term_exit env of None \<Rightarrow> [] | Some c \<Rightarrow> [Wait (APP_PID s), Spawn (next_pid s)]))"
    using assms p(1) by (simp add: tick_shape restart_app_final prepared_fields split: option.splits)
  then show ?thesis using p(2,3) fresh_append by blast
qed

lemma tick_unchanged_trace:
  assumes "\<not> changed MODE env s"
  shows "fresh s (final (tick MODE env s)) =
           (if MODE = ''update'' then [GitFetch (fetch env \<noteq> FetchFails)] else [])"
    and "completed (tick MODE env s)"
    and "PREV (final (tick MODE env s)) = PREV s"
    and "APP_PID (final (tick MODE env s)) = APP_PID s"
    and "head (final (tick MODE env s)) = head s"
  using assms by (simp_all add: tick_shape fresh_def git_fetch_fields)

lemma tick_signals:
  "filter is_kill (fresh s (final (tick MODE env s))) =
     (if changed MODE env s then [Kill SIGTERM (APP_PID s)] else [])"
proof (cases "changed MODE env s")
  case True
  from tick_changed_trace [OF True, of ] obtain pre where
    "fresh s (final (tick MODE env s)) =
           pre @ Kill SIGTERM (APP_PID s)
             # (case term_exit env of None \<Rightarrow> [] | Some c \<Rightarrow> [Wait (APP_PID s), Spawn (next_pid s)])"
    "filter is_kill pre = []" by blast
  then show ?thesis using True by (simp split: option.splits)
next
  case False
  then show ?thesis by (simp add: tick_unchanged_trace)
qed

lemma tick_spawns:
  "filter is_spawn (fresh s (final (tick MODE env s))) =
     (if changed MODE env s \<and> term_exit env \<noteq> None then [Spawn (next_pid s)] else [])"
proof (cases "changed MODE env s")
  case True
  from tick_changed_trace [OF True, of ] obtain pre where
    "fresh s (final (tick MODE env s)) =
           pre @ Kill SIGTERM (APP_PID s)
             # (case term_exit env of None \<Rightarrow> [] | Some c \<Rightarrow> [Wait (APP_PID s), Spawn (next_pid s)])"
    "filter is_spawn pre = []" by blast
  then show ?thesis using True by (auto split: option.splits)
next
  case False
  then show ?thesis by (simp add: tick_unchanged_trace)
qed

lemma tick_completed:
  "completed (tick MODE env s) = (changed MODE env s \<longrightarrow> term_exit env \<noteq> None)"
  by (simp add: tick_shape restart_app_final)

lemma tick_changed_done:
  assumes "changed MODE env s" "term_exit env = Some c"
  shows "\<exists>s'. tick MODE env s = Done s' \<and> PREV s' = observed MODE env s
           \<and> APP_PID s' = next_pid s \<and> next_pid s' = Suc (next_pid s)"
  using assms restart_app_done [of env c "observed MODE env s" "prepared MODE env s"]
  by (simp add: tick_shape prepared_fields)

lemma update_head_after:
  assumes "changed ''update'' env s"
  shows "head (final (tick ''update'' env s)) =
           (if reset_ok env \<and> remote_ref (git_fetch env s) \<noteq> None
            then remote_ref (git_fetch env s) else head s)"
  using assms
  by (auto simp add: tick_shape restart_app_final prepared_def install_deps_fields
      git_reset_fields log_fields git_fetch_fields)

lemma trace_others: "trace (others env s) = trace s"
  by (simp add: others_def split: option.splits)

lemma watch_tick_same:
  "MODE \<noteq> ''update'' \<Longrightarrow> current_head s = PREV s \<Longrightarrow> tick MODE env s = Done s"
  by (simp add: tick_def)

lemma watch_tick_trace:
  "MODE \<noteq> ''update'' \<Longrightarrow> current_head s \<noteq> PREV s \<Longrightarrow>
   fresh s (final (tick MODE env s)) =
     Echo (''[git] detected change: '' @ PREV s @ '' -> '' @ current_head s @ '' (watch-only)'')
     # (if manifest s = None then []
        else [Echo ''[git] installing requirements...'', PipInstall (pip_ok env)])
     @ Kill SIGTERM (APP_PID s)
     # (case term_exit env of None \<Rightarrow> [] | Some c \<Rightarrow> [Wait (APP_PID s), Spawn (next_pid s)])"
  by (simp add: fresh_def tick_def restart_app_def install_deps_def log_def emit_def spawn_def
      Let_def split: option.splits)

lemma watch_tick_done:
  "MODE \<noteq> ''update'' \<Longrightarrow> current_head s \<noteq> PREV s \<Longrightarrow> term_exit env = Some c \<Longrightarrow>
   \<exists>s'. tick MODE env s = Done s' \<and> PREV s' = current_head s \<and> APP_PID s' = next_pid s
        \<and> head s' = head s"
  by (simp add: tick_def restart_app_def install_deps_def log_def emit_def spawn_def Let_def)

lemma watch_tick_git:
  "MODE \<noteq> ''update'' \<Longrightarrow>
   filter is_git (trace (final (tick MODE env s))) = filter is_git (trace s)"
  by (simp add: tick_def restart_app_def install_deps_def log_def emit_def spawn_def Let_def
      split: option.splits)

lemma watch_loop_git:
  "MODE \<noteq> ''update'' \<Longrightarrow>
   filter is_git (trace (state_of (loop MODE envs s))) = filter is_git (trace s)"
proof (induction envs arbitrary: s)
  case Nil
  then show ?case by simp
next
  case (Cons env envs)
  show ?case
  proof (cases "tick MODE env (others env s)")
    case (Done s')
    with watch_tick_git [OF Cons.prems, of env "others env s"]
    have "filter is_git (trace s') = filter is_git (trace s)" by (simp add: trace_others)
    with Cons.IH [OF Cons.prems, of s'] Done show ?thesis by simp
  next
    case (Blocked b)
    with watch_tick_git [OF Cons.prems, of env "others env s"]
    show ?thesis by (simp add: trace_others)
  qed
qed

lemma fields_others:
  "PREV (others env s) = PREV s" "APP_PID (others env s) = APP_PID s"
  "next_pid (others env s) = next_pid s" "remote_ref (others env s) = remote_ref s"
  "req_hash (others env s) = req_hash s" "git_dir (others env s) = git_dir s"
  "pid_file (others env s) = pid_file s"
  "head_echo (others env s) = head_echo s" "ref_echo (others env s) = ref_echo s"
  by (simp_all add: others_def split: option.splits)

lemma heads_kept:
  "origin_head (emit e s) = origin_head s" "current_head (emit e s) = current_head s"
  "LOCAL (emit e s) = LOCAL s" "REMOTE (emit e s) = REMOTE s"
  "LOCAL (echo m s) = LOCAL s" "REMOTE (echo m s) = REMOTE s"
  "LOCAL (git_fetch env s) = LOCAL s" "current_head (git_fetch env s) = current_head s"
  "origin_head (others env s) = origin_head s" "REMOTE (others env s) = REMOTE s"
  by (simp_all add: origin_head_def current_head_def LOCAL_def REMOTE_def emit_fields
      echo_fields git_fetch_fields fields_others split: option.splits)

lemma fetch_same:
  assumes "fetch env = FetchFails \<or> fetch env = Fetched (remote_ref s)"
  shows "remote_ref (git_fetch env s) = remote_ref s"
    and "origin_head (git_fetch env s) = origin_head s"
    and "REMOTE (git_fetch env s) = REMOTE s"
  using assms
  by (auto simp add: origin_head_def REMOTE_def git_fetch_fields split: option.splits)

lemma tick_extends: "\<exists>evs. trace (final (tick MODE env s)) = trace s @ evs"
proof (cases "changed MODE env s")
  case True
  obtain pre where "trace (prepared MODE env s) = trace s @ pre"
    using prepared_trace by blast
  then show ?thesis using True by (simp add: tick_shape restart_app_final)
next
  case False
  then show ?thesis by (simp add: tick_shape git_fetch_fields)
qed

lemma trace_fresh: "trace (final (tick MODE env s)) = trace s @ fresh s (final (tick MODE env s))"
  using tick_extends [of MODE env s] by (auto simp add: fresh_def)

lemma update_tick_observed:
  assumes "tick ''update'' env s = Done s1" "fetch env = Fetched (Some A)" "A \<noteq> ''none''"
  shows "PREV s1 = A"
proof -
  have o: "observed ''update'' env s = A"
    using assms(2) by (simp add: observed_def origin_head_def git_fetch_fields)
  show ?thesis
  proof (cases "changed ''update'' env s")
    case True
    have "term_exit env \<noteq> None"
      using tick_completed [of "''update''" env s] True assms(1) by simp
    then obtain c where "term_exit env = Some c" by blast
    from tick_changed_done [OF True this] assms(1) o show ?thesis by simp
  next
    case False
    then have "PREV s = A" using o assms(3) by (simp add: changed_def)
    moreover have "PREV (final (tick ''update'' env s)) = PREV s"
      using False by (rule tick_unchanged_trace)
    ultimately show ?thesis using assms(1) by simp
  qed
qed

section \<open>Update mode\<close>

text \<open>
  Claim C1, as the code has it. Update mode of the Dockerfile entrypoint: a tick has seen the
  remote head at commit \<open>A\<close>; by the next tick the remote has moved to another commit \<open>B\<close>,
  the fetch brings it in and the hard reset works. Then that tick sends exactly one SIGTERM
  to the child, the checkout is at \<open>B\<close>, and as soon as the child has exited the tick
  completes with exactly one new child started and \<open>PREV = B\<close>.
\<close>

theorem update_detects_new_remote_head:
  assumes "tick ''update'' envA s = Done s1" "fetch envA = Fetched (Some A)" "A \<noteq> ''none''"
    and "fetch envB = Fetched (Some B)" "B \<noteq> A" "B \<noteq> ''none''" "reset_ok envB"
  shows "filter is_kill (fresh (others envB s1) (final (tick ''update'' envB (others envB s1))))
           = [Kill SIGTERM (APP_PID s1)]
       \<and> head (final (tick ''update'' envB (others envB s1))) = Some B
       \<and> (\<forall>c. term_exit envB = Some c \<longrightarrow>
            (\<exists>s2. tick ''update'' envB (others envB s1) = Done s2 \<and> head s2 = Some B
                 \<and> PREV s2 = B
                 \<and> filter is_spawn (fresh (others envB s1) s2) = [Spawn (next_pid s1)]))"
proof -
  let ?t = "others envB s1"
  have p: "PREV ?t = A"
    using update_tick_observed [OF assms(1-3)] by (simp add: fields_others)
  have o: "observed ''update'' envB ?t = B"
    using assms(4) by (simp add: observed_def origin_head_def git_fetch_fields)
  have ch: "changed ''update'' envB ?t"
    using p o assms(5,6) by (simp add: changed_def)
  have k: "filter is_kill (fresh ?t (final (tick ''update'' envB ?t))) = [Kill SIGTERM (APP_PID s1)]"
    using ch by (simp add: tick_signals fields_others)
  have h: "head (final (tick ''update'' envB ?t)) = Some B"
    using update_head_after [OF ch] assms(4,7) by (simp add: git_fetch_fields)
  have d: "\<exists>s2. tick ''update'' envB ?t = Done s2 \<and> head s2 = Some B \<and> PREV s2 = B
            \<and> filter is_spawn (fresh ?t s2) = [Spawn (next_pid s1)]"
    if "term_exit envB = Some c" for c
  proof -
    from tick_changed_done [OF ch that] obtain s2 where
      s2: "tick ''update'' envB ?t = Done s2" "PREV s2 = observed ''update'' envB ?t" by blast
    have "filter is_spawn (fresh ?t (final (tick ''update'' envB ?t))) = [Spawn (next_pid s1)]"
      using ch that by (simp add: tick_spawns fields_others)
    then show ?thesis using s2 h o by simp
  qed
  show ?thesis using k h d by blast
qed

theorem update_detects_new_remote_head_witness:
  "tick ''update'' (interval0\<lparr>fetch := Fetched (Some ''abc123'')\<rparr>) checkout0
     = Done (emit (GitFetch True) checkout0)
   \<and> tick ''update'' interval0 (others interval0 (emit (GitFetch True) checkout0))
     = Done (final (tick ''update'' interval0 (others interval0 (emit (GitFetch True) checkout0))))
   \<and> head (final (tick ''update'' interval0 (others interval0 (emit (GitFetch True) checkout0))))
     = Some ''def456''
   \<and> filter is_kill (fresh (others interval0 (emit (GitFetch True) checkout0))
        (final (tick ''update'' interval0 (others interval0 (emit (GitFetch True) checkout0)))))
     = [Kill SIGTERM 100]"
proof -
  let ?envA = "interval0\<lparr>fetch := Fetched (Some ''abc123'')\<rparr>"
  let ?s1 = "emit (GitFetch True) checkout0"
  have a: "tick ''update'' ?envA checkout0 = Done ?s1"
    by (simp add: tick_def git_fetch_def origin_head_def emit_def Let_def checkout0_def
        interval0_def)
  have b: "fetch ?envA = Fetched (Some ''abc123'')" by simp
  have c: "fetch interval0 = Fetched (Some ''def456'')" "reset_ok interval0"
    "term_exit interval0 = Some 143"
    by (simp_all add: interval0_def)
  from update_detects_new_remote_head [OF a b _ c(1) _ _ c(2), of ]
  show ?thesis using a c(3) by (auto simp add: emit_fields checkout0_def)
qed

text \<open>
  The claim as written asks only for the fetch to succeed. The reset is run as
  \<^verbatim>\<open>git reset --hard "$NEW" -q || true\<close>: when it fails the restart still happens and
  the checkout stays where it was.
\<close>

theorem update_reset_failure_counterexample:
  "PREV checkout0 = ''abc123''
   \<and> fetch (interval0\<lparr>reset_ok := False\<rparr>) = Fetched (Some ''def456'')
   \<and> completed (tick ''update'' (interval0\<lparr>reset_ok := False\<rparr>) checkout0)
   \<and> filter is_kill (trace (final (tick ''update'' (interval0\<lparr>reset_ok := False\<rparr>) checkout0)))
       = [Kill SIGTERM 100]
   \<and> filter is_spawn (trace (final (tick ''update'' (interval0\<lparr>reset_ok := False\<rparr>) checkout0)))
       = [Spawn 101]
   \<and> head (final (tick ''update'' (interval0\<lparr>reset_ok := False\<rparr>) checkout0)) = Some ''abc123''
   \<and> head (final (tick ''update'' (interval0\<lparr>reset_ok := False\<rparr>) checkout0)) \<noteq> Some ''def456''"
  by (simp add: tick_def restart_app_def install_deps_def git_reset_def git_fetch_def log_def
      emit_def spawn_def origin_head_def Let_def checkout0_def interval0_def)

section \<open>Facts about git-entrypoint.sh and about whole runs\<close>

lemma install_reqs_fields:
  "trace (install_reqs env s) =
     trace s @ (if manifest s \<noteq> None \<and> req_hash s \<noteq> manifest s
                then [Echo ''[deps] installing requirements...'', PipInstall (pip_ok env)]
                else [])"
  "req_hash (install_reqs env s) = (if manifest s = None then req_hash s else manifest s)"
  "manifest (install_reqs env s) = manifest s" "head (install_reqs env s) = head s"
  "remote_ref (install_reqs env s) = remote_ref s" "git_dir (install_reqs env s) = git_dir s"
  "pid_file (install_reqs env s) = pid_file s" "next_pid (install_reqs env s) = next_pid s"
  "PREV (install_reqs env s) = PREV s" "APP_PID (install_reqs env s) = APP_PID s"
  by (auto simp add: install_reqs_def echo_def emit_def split: option.splits)

lemma git_clone_fields:
  "trace (git_clone env s) = trace s @ [GitClone (clone env \<noteq> None)]"
  "pid_file (git_clone env s) = pid_file s" "next_pid (git_clone env s) = next_pid s"
  "PREV (git_clone env s) = PREV s" "APP_PID (git_clone env s) = APP_PID s"
  "req_hash (git_clone env s) = req_hash s"
  by (simp_all add: git_clone_def emit_def split: option.splits)

lemma update_repo_once_frame:
  "pid_file (snd (update_repo_once U env s)) = pid_file s"
  "next_pid (snd (update_repo_once U env s)) = next_pid s"
  "APP_PID (snd (update_repo_once U env s)) = APP_PID s"
  "PREV (snd (update_repo_once U env s)) = PREV s"
  by (simp_all add: update_repo_once_def Let_def install_reqs_fields git_clone_fields
      git_reset_fields git_fetch_fields echo_fields emit_fields)

lemma update_repo_once_trace:
  "\<exists>evs. trace (snd (update_repo_once U env s)) = trace s @ evs
       \<and> filter is_kill evs = [] \<and> filter is_spawn evs = []"
  by (simp add: update_repo_once_def Let_def install_reqs_fields git_clone_fields
      git_reset_fields git_fetch_fields echo_fields emit_fields)

lemma update_repo_once_rc: "fst (update_repo_once U env s) = 0 \<or> fst (update_repo_once U env s) = 1"
  by (simp add: update_repo_once_def Let_def)

lemma update_repo_once_steady:
  assumes "U = [] \<or> (git_dir s \<and> head s \<noteq> None \<and> head s = remote_ref s)"
    and "fetch env = FetchFails \<or> fetch env = Fetched (remote_ref s)"
  shows "fst (update_repo_once U env s) = 0"
    and "git_dir (snd (update_repo_once U env s)) = git_dir s"
    and "head (snd (update_repo_once U env s)) = head s"
    and "remote_ref (snd (update_repo_once U env s)) = remote_ref s"
proof -
  let ?P = "fst (update_repo_once U env s) = 0
    \<and> git_dir (snd (update_repo_once U env s)) = git_dir s
    \<and> head (snd (update_repo_once U env s)) = head s
    \<and> remote_ref (snd (update_repo_once U env s)) = remote_ref s"
  have ?P
  proof (cases "U = []")
    case True
    then show ?thesis by (simp add: update_repo_once_def)
  next
    case False
    with assms(1) obtain h where h: "git_dir s" "head s = Some h" "remote_ref s = Some h"
      by (cases "head s") auto
    from assms(2) show ?thesis
    proof
      assume "fetch env = FetchFails"
      then show ?thesis using False h
        by (simp add: update_repo_once_def LOCAL_def REMOTE_def Let_def git_fetch_fields
            emit_fields)
    next
      assume "fetch env = Fetched (remote_ref s)"
      then show ?thesis using False h
        by (simp add: update_repo_once_def LOCAL_def REMOTE_def Let_def git_fetch_fields
            emit_fields)
    qed
  qed
  then show "fst (update_repo_once U env s) = 0"
    and "git_dir (snd (update_repo_once U env s)) = git_dir s"
    and "head (snd (update_repo_once U env s)) = head s"
    and "remote_ref (snd (update_repo_once U env s)) = remote_ref s"
    by simp_all
qed

lemma state_of_await: "state_of (await envs s) = s"
  by (induction envs) (simp_all split: option.splits)

lemma watcher_steady:
  assumes "U = [] \<or> (git_dir s \<and> head s \<noteq> None \<and> head s = remote_ref s)"
    and "\<forall>env\<in>set envs. moved env = None
           \<and> (fetch env = FetchFails \<or> fetch env = Fetched (remote_ref s))"
  shows "filter is_kill (trace (state_of (watcher U envs s))) = filter is_kill (trace s)"
  using assms
proof (induction envs arbitrary: s)
  case Nil
  then show ?case by simp
next
  case (Cons env envs)
  have m: "others env s = s" using Cons.prems(2) by (simp add: others_def)
  have f: "fetch env = FetchFails \<or> fetch env = Fetched (remote_ref s)"
    using Cons.prems(2) by simp
  note st = update_repo_once_steady [OF Cons.prems(1) f]
  let ?u = "snd (update_repo_once U env s)"
  have "filter is_kill (trace (state_of (watcher U envs ?u))) = filter is_kill (trace ?u)"
    using Cons.prems st(2-4) by (intro Cons.IH) simp_all
  moreover obtain evs where "trace ?u = trace s @ evs" "filter is_kill evs = []"
    using update_repo_once_trace by blast
  ultimately have "filter is_kill (trace (state_of (watcher U envs ?u))) = filter is_kill (trace s)"
    by simp
  then show ?case using st(1) m by (simp add: state_of_await split: option.splits)
qed

lemma watcher_spawns:
  "filter is_spawn (trace (state_of (watcher U envs s))) = filter is_spawn (trace s)"
proof (induction envs arbitrary: s)
  case Nil
  then show ?case by simp
next
  case (Cons env envs)
  let ?r = "update_repo_once U env (others env s)"
  let ?u = "snd ?r"
  obtain evs where e: "trace ?u = trace s @ evs" "filter is_spawn evs = []"
    using update_repo_once_trace [of U env "others env s"] by (auto simp add: trace_others)
  then have u: "filter is_spawn (trace ?u) = filter is_spawn (trace s)" by simp
  show ?case
    by (simp add: Let_def state_of_await Cons.IH u emit_fields echo_fields split: option.splits)
qed

lemma only_kill:
  assumes "filter is_kill evs = [] \<or> filter is_kill evs = [Kill SIGTERM q]"
  shows "\<forall>sg p. Kill sg p \<in> set evs \<longrightarrow> sg = SIGTERM"
proof (intro allI impI)
  fix sg p
  assume "Kill sg p \<in> set evs"
  then have m: "Kill sg p \<in> set (filter is_kill evs)" by simp
  from assms show "sg = SIGTERM"
  proof
    assume e: "filter is_kill evs = []"
    show ?thesis using m unfolding e by simp
  next
    assume e: "filter is_kill evs = [Kill SIGTERM q]"
    show ?thesis using m unfolding e by simp
  qed
qed

lemma loop_extends:
  "\<exists>evs. trace (state_of (loop MODE envs s)) = trace s @ evs
       \<and> (\<forall>sg p. Kill sg p \<in> set evs \<longrightarrow> sg = SIGTERM)"
proof (induction envs arbitrary: s)
  case Nil
  then show ?case by simp
next
  case (Cons env envs)
  let ?t = "tick MODE env (others env s)"
  let ?e1 = "fresh (others env s) (final ?t)"
  have t: "trace (final ?t) = trace s @ ?e1"
    using trace_fresh [of MODE env "others env s"] by (simp add: trace_others)
  have k: "\<forall>sg p. Kill sg p \<in> set ?e1 \<longrightarrow> sg = SIGTERM"
    by (rule only_kill [of _ "APP_PID (others env s)"]) (simp add: tick_signals)
  show ?case
  proof (cases "sleep_ok env")
    case False
    then show ?thesis by simp
  next
    case True
    show ?thesis
    proof (cases ?t)
      case (Done s')
      from Cons.IH [of s'] obtain e2 where
        e2: "trace (state_of (loop MODE envs s')) = trace s' @ e2"
        "\<forall>sg p. Kill sg p \<in> set e2 \<longrightarrow> sg = SIGTERM" by blast
      have "trace (state_of (loop MODE (env # envs) s)) = trace s @ (?e1 @ e2)"
        using True Done t e2(1) by simp
      moreover have "\<forall>sg p. Kill sg p \<in> set (?e1 @ e2) \<longrightarrow> sg = SIGTERM"
        using k e2(2) by auto
      ultimately show ?thesis by blast
    next
      case (Blocked b)
      then have "trace (state_of (loop MODE (env # envs) s)) = trace s @ ?e1"
        using True t by simp
      with k show ?thesis by blast
    qed
  qed
qed

lemma watcher_extends:
  "\<exists>evs. trace (state_of (watcher U envs s)) = trace s @ evs
       \<and> (\<forall>sg p. Kill sg p \<in> set evs \<longrightarrow> sg = SIGTERM)"
proof (induction envs arbitrary: s)
  case Nil
  then show ?case by simp
next
  case (Cons env envs)
  let ?r = "update_repo_once U env (others env s)"
  let ?u = "snd ?r"
  let ?k = "emit (Kill SIGTERM (case pid_file ?u of Some q \<Rightarrow> q | None \<Rightarrow> 0))
              (echo ''[git] changes detected -> terminating app for restart'' ?u)"
  obtain e1 where e1: "trace ?u = trace s @ e1" "filter is_kill e1 = []"
    using update_repo_once_trace [of U env "others env s"] by (auto simp add: trace_others)
  have k1: "\<forall>sg p. Kill sg p \<in> set e1 \<longrightarrow> sg = SIGTERM"
    using e1(2) by (intro only_kill [of _ 0]) simp
  let ?e2 = "e1 @ [Echo ''[git] changes detected -> terminating app for restart'',
                   Kill SIGTERM (case pid_file ?u of Some q \<Rightarrow> q | None \<Rightarrow> 0)]"
  have e2: "trace ?k = trace s @ ?e2" by (simp add: emit_fields echo_fields e1(1))
  have k2: "\<forall>sg p. Kill sg p \<in> set ?e2 \<longrightarrow> sg = SIGTERM" using k1 by auto
  consider (exit) c where "child_exit env = Some c"
    | (nosleep) "child_exit env = None" "\<not> sleep_ok env"
    | (same) "child_exit env = None" "sleep_ok env" "fst ?r = 0"
    | (kill_exit) c where "child_exit env = None" "sleep_ok env" "fst ?r \<noteq> 0" "term_exit env = Some c"
    | (kill_go) "child_exit env = None" "sleep_ok env" "fst ?r \<noteq> 0" "term_exit env = None"
    by (cases "child_exit env"; cases "term_exit env") auto
  then show ?case
  proof cases
    case exit
    then show ?thesis by simp
  next
    case nosleep
    then show ?thesis by (simp add: state_of_await)
  next
    case same
    from Cons.IH [of ?u] obtain e3 where
      e3: "trace (state_of (watcher U envs ?u)) = trace ?u @ e3"
      "\<forall>sg p. Kill sg p \<in> set e3 \<longrightarrow> sg = SIGTERM" by blast
    have "trace (state_of (watcher U (env # envs) s)) = trace s @ (e1 @ e3)"
      using same e1(1) e3(1) by simp
    moreover have "\<forall>sg p. Kill sg p \<in> set (e1 @ e3) \<longrightarrow> sg = SIGTERM"
      using k1 e3(2) by auto
    ultimately show ?thesis by blast
  next
    case kill_exit
    then have "trace (state_of (watcher U (env # envs) s)) = trace s @ ?e2"
      using e2 by (simp add: Let_def echo_fields)
    with k2 show ?thesis by blast
  next
    case kill_go
    from Cons.IH [of ?k] obtain e3 where
      e3: "trace (state_of (watcher U envs ?k)) = trace ?k @ e3"
      "\<forall>sg p. Kill sg p \<in> set e3 \<longrightarrow> sg = SIGTERM" by blast
    have "trace (state_of (watcher U (env # envs) s)) = trace s @ (?e2 @ e3)"
      using kill_go e2 e3(1) by (simp add: Let_def echo_fields)
    moreover have "\<forall>sg p. Kill sg p \<in> set (?e2 @ e3) \<longrightarrow> sg = SIGTERM"
      using k2 e3(2) by auto
    ultimately show ?thesis by blast
  qed
qed

lemma loop_never_sigkill: "Kill SIGKILL p \<notin> set (fresh s (state_of (loop MODE envs s)))"
proof -
  obtain evs where "trace (state_of (loop MODE envs s)) = trace s @ evs"
    "\<forall>sg p. Kill sg p \<in> set evs \<longrightarrow> sg = SIGTERM"
    using loop_extends by blast
  then show ?thesis by (auto simp add: fresh_def)
qed

lemma watcher_never_sigkill: "Kill SIGKILL p \<notin> set (fresh s (state_of (watcher U envs s)))"
proof -
  obtain evs where "trace (state_of (watcher U envs s)) = trace s @ evs"
    "\<forall>sg p. Kill sg p \<in> set evs \<longrightarrow> sg = SIGTERM"
    using watcher_extends by blast
  then show ?thesis by (auto simp add: fresh_def)
qed

lemma update_tick_steady:
  assumes "fetch env = FetchFails \<or> fetch env = Fetched (remote_ref s)"
    and "origin_head s = PREV s"
  shows "tick ''update'' env s = Done (git_fetch env s)"
    and "remote_ref (git_fetch env s) = remote_ref s"
    and "origin_head (git_fetch env s) = PREV (git_fetch env s)"
  using assms fetch_same [OF assms(1)]
  by (simp_all add: tick_def Let_def git_fetch_fields)

lemma update_loop_steady:
  assumes "\<forall>env\<in>set envs. fetch env = FetchFails \<or> fetch env = Fetched (remote_ref s)"
    and "origin_head s = PREV s"
  shows "filter is_kill (trace (state_of (loop ''update'' envs s))) = filter is_kill (trace s)
       \<and> filter is_spawn (trace (state_of (loop ''update'' envs s))) = filter is_spawn (trace s)"
  using assms
proof (induction envs arbitrary: s)
  case Nil
  then show ?case by simp
next
  case (Cons env envs)
  let ?t = "others env s"
  let ?u = "git_fetch env ?t"
  have f: "fetch env = FetchFails \<or> fetch env = Fetched (remote_ref ?t)"
    using Cons.prems(1) by (simp add: fields_others)
  have o: "origin_head ?t = PREV ?t"
    using Cons.prems(2) by (simp add: heads_kept fields_others)
  note st = update_tick_steady [OF f o]
  have "\<forall>e\<in>set envs. fetch e = FetchFails \<or> fetch e = Fetched (remote_ref ?u)"
    using Cons.prems(1) st(2) by (simp add: fields_others)
  then have
    "filter is_kill (trace (state_of (loop ''update'' envs ?u))) = filter is_kill (trace ?u)
     \<and> filter is_spawn (trace (state_of (loop ''update'' envs ?u))) = filter is_spawn (trace ?u)"
    using st(3) by (rule Cons.IH)
  then show ?case using st(1) by (simp add: trace_others git_fetch_fields)
qed

lemma watch_loop_steady:
  assumes "MODE \<noteq> ''update''" "\<forall>env\<in>set envs. moved env = None" "current_head s = PREV s"
  shows "state_of (loop MODE envs s) = s"
  using assms
  by (induction envs arbitrary: s) (simp_all add: others_def watch_tick_same)

section \<open>No change, no restart\<close>

text \<open>
  Claim C2, as the code has it. While the remote head stays what it is, no signal is sent
  to the child and no child is started, provided the supervisor starts in step with the
  remote:
  \<^item> Dockerfile entrypoint, update mode: every fetch fails or leaves the remote-tracking ref
    as it is, and what \<open>origin_head\<close> reads for that ref is the value remembered in
    \<open>PREV\<close>;
  \<^item> Dockerfile entrypoint, watch mode: nobody moves HEAD and HEAD is the head in \<open>PREV\<close>;
  \<^item> git-entrypoint.sh: nobody else moves HEAD, every fetch fails or leaves the ref as it
    is, and the checkout is at that ref (or no repository URL is configured).
\<close>

theorem unchanged_remote_never_restarts:
  "((\<forall>env\<in>set envs. fetch env = FetchFails \<or> fetch env = Fetched (remote_ref s))
      \<and> origin_head s = PREV s \<longrightarrow>
      filter is_kill (trace (state_of (loop ''update'' envs s))) = filter is_kill (trace s)
      \<and> filter is_spawn (trace (state_of (loop ''update'' envs s))) = filter is_spawn (trace s))
   \<and> (MODE \<noteq> ''update'' \<and> (\<forall>env\<in>set envs. moved env = None) \<and> current_head s = PREV s \<longrightarrow>
      trace (state_of (loop MODE envs s)) = trace s)
   \<and> ((U = [] \<or> (git_dir s \<and> head s \<noteq> None \<and> head s = remote_ref s))
      \<and> (\<forall>env\<in>set envs. moved env = None
             \<and> (fetch env = FetchFails \<or> fetch env = Fetched (remote_ref s))) \<longrightarrow>
      filter is_kill (trace (state_of (watcher U envs s))) = filter is_kill (trace s)
      \<and> filter is_spawn (trace (state_of (watcher U envs s))) = filter is_spawn (trace s))"
  using update_loop_steady [of envs s] watch_loop_steady [of MODE envs s]
    watcher_steady [of U s envs] watcher_spawns [of U envs s]
  by simp

theorem unchanged_remote_never_restarts_witness:
  "fetch (interval0\<lparr>fetch := FetchFails\<rparr>) = FetchFails
   \<and> fetch (interval0\<lparr>fetch := Fetched (Some ''abc123'')\<rparr>) = Fetched (remote_ref checkout0)
   \<and> origin_head checkout0 = PREV checkout0
   \<and> ''watch'' \<noteq> ''update''
   \<and> moved (interval0\<lparr>fetch := FetchFails\<rparr>) = None
   \<and> moved (interval0\<lparr>fetch := Fetched (Some ''abc123'')\<rparr>) = None
   \<and> current_head checkout0 = PREV checkout0
   \<and> git_dir checkout0 \<and> head checkout0 \<noteq> None \<and> head checkout0 = remote_ref checkout0
   \<and> filter is_kill (trace (state_of (loop ''update''
        [interval0\<lparr>fetch := FetchFails\<rparr>, interval0\<lparr>fetch := Fetched (Some ''abc123'')\<rparr>]
        checkout0))) = []
   \<and> filter is_spawn (trace (state_of (loop ''update''
        [interval0\<lparr>fetch := FetchFails\<rparr>, interval0\<lparr>fetch := Fetched (Some ''abc123'')\<rparr>]
        checkout0))) = []
   \<and> trace (state_of (loop ''watch''
        [interval0\<lparr>fetch := FetchFails\<rparr>, interval0\<lparr>fetch := Fetched (Some ''abc123'')\<rparr>]
        checkout0)) = []
   \<and> filter is_kill (trace (state_of (watcher ''https://example.org/panel.git''
        [interval0\<lparr>fetch := FetchFails\<rparr>, interval0\<lparr>fetch := Fetched (Some ''abc123'')\<rparr>]
        checkout0))) = []"
  using unchanged_remote_never_restarts [of
      "[interval0\<lparr>fetch := FetchFails\<rparr>, interval0\<lparr>fetch := Fetched (Some ''abc123'')\<rparr>]"
      checkout0 "''watch''" "''https://example.org/panel.git''"]
  by (simp add: checkout0_def interval0_def origin_head_def current_head_def)

text \<open>
  The claim as written fails when the supervisor starts behind a remote that never moves:
  the checkout is at \<open>abc123\<close>, the remote-tracking ref is at \<open>def456\<close> from the start and
  every fetch leaves it there, and the first tick terminates the child.
\<close>

theorem constant_remote_restart_counterexample:
  "remote_ref (checkout0\<lparr>remote_ref := Some ''def456''\<rparr>) = Some ''def456''
   \<and> fetch interval0 = Fetched (Some ''def456'')
   \<and> filter is_kill (trace (state_of
        (entrypoint ''update'' Started [interval0] (checkout0\<lparr>remote_ref := Some ''def456''\<rparr>))))
       = [Kill SIGTERM 101]
   \<and> filter is_spawn (trace (state_of
        (entrypoint ''update'' Started [interval0] (checkout0\<lparr>remote_ref := Some ''def456''\<rparr>))))
       = [Spawn 101, Spawn 102]"
  by (simp add: entrypoint_def tick_def restart_app_def install_deps_def git_reset_def
      git_fetch_def log_def emit_def spawn_def origin_head_def current_head_def others_def Let_def
      checkout0_def interval0_def)

section \<open>An absent remote head\<close>

text \<open>
  The loop body of the Dockerfile entrypoint guards its update branch with
  \<^verbatim>\<open>"$NEW" != "none"\<close>, so that an unresolvable remote-tracking ref makes the tick do
  nothing. That works when the failing \<^verbatim>\<open>git rev-parse\<close> prints nothing:
\<close>

lemma silent_absent_remote_head_is_noop:
  assumes "fetch env = Fetched None \<or> (fetch env = FetchFails \<and> remote_ref s = None)"
    and "ref_echo s = []"
  shows "\<not> changed ''update'' env s"
    and "tick ''update'' env s = Done (git_fetch env s)"
    and "fresh s (git_fetch env s) = [GitFetch (fetch env \<noteq> FetchFails)]"
  using assms
  by (auto simp add: fresh_def tick_def changed_def observed_def git_fetch_fields origin_head_def
      Let_def)

text \<open>
  Claim C7 does not hold of the code. \<^verbatim>\<open>git rev-parse\<close> prints a name it cannot resolve
  before it fails, so for an absent remote-tracking ref \<open>origin_head\<close> is that name, a
  newline and \<open>none\<close>, which is not the sentinel: the guard lets it through. Update mode,
  the checkout at \<open>abc123\<close> with \<open>PREV = abc123\<close>, no ref \<open>origin/main\<close>, the fetch fails:
  the tick attempts the hard reset (which fails and is swallowed), runs the install,
  sends SIGTERM to the child, waits, starts a new child and remembers the string in \<open>PREV\<close>.
\<close>

theorem absent_remote_head_restarts:
  "remote_ref (checkout0\<lparr>remote_ref := None\<rparr>) = None
   \<and> fetch (interval0\<lparr>fetch := FetchFails\<rparr>) = FetchFails
   \<and> origin_head (checkout0\<lparr>remote_ref := None\<rparr>) = ''origin/main'' @ [CHR 0x0A] @ ''none''
   \<and> completed (tick ''update'' (interval0\<lparr>fetch := FetchFails\<rparr>)
         (checkout0\<lparr>remote_ref := None\<rparr>))
   \<and> trace (final (tick ''update'' (interval0\<lparr>fetch := FetchFails\<rparr>)
         (checkout0\<lparr>remote_ref := None\<rparr>)))
       = [GitFetch False,
          Echo (''[git] update: abc123 -> origin/main'' @ [CHR 0x0A] @ ''none''),
          GitReset (''origin/main'' @ [CHR 0x0A] @ ''none'') False,
          Echo ''[git] installing requirements...'', PipInstall True,
          Kill SIGTERM 100, Wait 100, Spawn 101]
   \<and> PREV (final (tick ''update'' (interval0\<lparr>fetch := FetchFails\<rparr>)
         (checkout0\<lparr>remote_ref := None\<rparr>)))
       = ''origin/main'' @ [CHR 0x0A] @ ''none''
   \<and> head (final (tick ''update'' (interval0\<lparr>fetch := FetchFails\<rparr>)
         (checkout0\<lparr>remote_ref := None\<rparr>))) = Some ''abc123''"
  by (simp add: tick_def restart_app_def install_deps_def git_reset_def git_fetch_def log_def
      emit_def spawn_def origin_head_def Let_def checkout0_def interval0_def)

text \<open>
  git-entrypoint.sh has no such guard. An unresolvable head becomes what
  \<^verbatim>\<open>git rev-parse\<close> printed followed by \<open>0\<close> (local) or \<open>1\<close> (remote); with the remote
  ref absent and the checkout at a commit the two differ, the reset is attempted and the
  watcher terminates the child.
\<close>

lemma update_repo_once_absent_remote:
  "fst (update_repo_once ''https://example.org/panel.git'' (interval0\<lparr>fetch := FetchFails\<rparr>)
        (checkout0\<lparr>remote_ref := None\<rparr>)) = 1"
  "trace (state_of (watcher ''https://example.org/panel.git'' [interval0\<lparr>fetch := FetchFails\<rparr>]
        (checkout0\<lparr>remote_ref := None\<rparr>)))
       = [Flock, GitSetUrl, GitFetch False,
          Echo (''[git] update: abc123 -> origin/main'' @ [CHR 0x0A] @ ''1''),
          GitReset ''origin/BRANCH'' False,
          Echo ''[deps] installing requirements...'', PipInstall True, Unlock,
          Echo ''[git] changes detected -> terminating app for restart'', Kill SIGTERM 100]"
  by (simp_all add: update_repo_once_def LOCAL_def REMOTE_def install_reqs_def git_reset_def
      git_fetch_def echo_def emit_def others_def Let_def checkout0_def interval0_def)

section \<open>Installing dependencies\<close>

text \<open>
  Claim C5, as the code has it. \<open>install_reqs\<close> of git-entrypoint.sh, with the manifest
  present: pip runs iff \<^verbatim>\<open>.req.hash\<close> is missing or differs from the manifest's digest;
  when pip succeeds the stored digest is the manifest's digest afterwards, a second call
  with the manifest unchanged does nothing at all, and the two calls together run pip once
  if the digests differed at first and not at all otherwise.
\<close>

theorem install_reqs_runs_on_digest_change:
  assumes "manifest s = Some d"
  shows "(filter is_pip (fresh s (install_reqs env s)) \<noteq> [] \<longleftrightarrow> req_hash s \<noteq> Some d)
       \<and> (pip_ok env \<longrightarrow>
            req_hash (install_reqs env s) = Some d
          \<and> manifest (install_reqs env s) = Some d
          \<and> install_reqs env' (install_reqs env s) = install_reqs env s
          \<and> filter is_pip (fresh s (install_reqs env' (install_reqs env s)))
              = (if req_hash s = Some d then [] else [PipInstall True]))"
proof -
  have a: "filter is_pip (fresh s (install_reqs env s)) \<noteq> [] \<longleftrightarrow> req_hash s \<noteq> Some d"
    using assms by (simp add: fresh_def install_reqs_fields)
  have b: "req_hash (install_reqs env s) = Some d" "manifest (install_reqs env s) = Some d"
    using assms by (simp_all add: install_reqs_fields)
  have c: "install_reqs env' (install_reqs env s) = install_reqs env s"
    using b by (simp add: install_reqs_def [of env' "install_reqs env s"])
  have "filter is_pip (fresh s (install_reqs env s))
          = (if req_hash s = Some d then [] else [PipInstall (pip_ok env)])"
    using assms by (simp add: fresh_def install_reqs_fields)
  with a b c show ?thesis by simp
qed

theorem install_reqs_runs_on_digest_change_witness:
  "manifest checkout0 = Some ''d1'' \<and> pip_ok interval0
   \<and> req_hash checkout0 \<noteq> Some ''d1''
   \<and> filter is_pip (fresh checkout0 (install_reqs interval0 checkout0)) = [PipInstall True]
   \<and> req_hash (install_reqs interval0 checkout0) = Some ''d1''
   \<and> filter is_pip (fresh checkout0 (install_reqs interval0 (install_reqs interval0 checkout0)))
       = [PipInstall True]"
  using install_reqs_runs_on_digest_change [of checkout0 "''d1''" interval0 interval0]
  by (simp add: checkout0_def interval0_def fresh_def install_reqs_fields)

text \<open>
  The claim as written fails for \<open>install_deps\<close> of the Dockerfile entrypoint, which keeps no
  digest: as long as the manifest exists every call runs pip, so two calls with an
  unchanged manifest install twice.
\<close>

theorem install_deps_twice_counterexample:
  "manifest (install_deps interval0 checkout0) = manifest checkout0
   \<and> filter is_pip (trace (install_deps interval0 (install_deps interval0 checkout0)))
       = [PipInstall True, PipInstall True]"
  by (simp add: install_deps_def log_def emit_def checkout0_def interval0_def)

text \<open>
  Claim C6, as the code has it. When pip exits non-zero the failure is swallowed and the
  tick goes on as if it had worked. Dockerfile entrypoint, either mode: a tick that has seen
  a change still sends its one SIGTERM and, once the child has exited, completes with one
  new child started and \<open>PREV\<close> advanced; it never touches \<^verbatim>\<open>.req.hash\<close>.
  git-entrypoint.sh: \<open>update_repo_once\<close> on an existing checkout where \<open>LOCAL\<close> and
  \<open>REMOTE\<close> differ after the fetch still returns 1, on which the watcher sends SIGTERM to
  the child.
\<close>

theorem failed_install_does_not_stop_restart:
  assumes "\<not> pip_ok env"
  shows "(changed MODE env s \<longrightarrow>
            filter is_kill (fresh s (final (tick MODE env s))) = [Kill SIGTERM (APP_PID s)]
          \<and> req_hash (final (tick MODE env s)) = req_hash s
          \<and> (\<forall>c. term_exit env = Some c \<longrightarrow>
                (\<exists>s'. tick MODE env s = Done s' \<and> PREV s' = observed MODE env s
                     \<and> filter is_spawn (fresh s s') = [Spawn (next_pid s)])))
       \<and> (U \<noteq> [] \<and> git_dir w \<and> LOCAL (git_fetch env w) \<noteq> REMOTE (git_fetch env w) \<longrightarrow>
            fst (update_repo_once U env w) = 1
          \<and> (pid_file w = Some p \<and> child_exit env = None \<and> sleep_ok env \<and> moved env = None \<longrightarrow>
               Kill SIGTERM p \<in> set (fresh w (state_of (watcher U (env # envs) w)))))"
proof -
  have d: "\<exists>s'. tick MODE env s = Done s' \<and> PREV s' = observed MODE env s
              \<and> filter is_spawn (fresh s s') = [Spawn (next_pid s)]"
    if ch: "changed MODE env s" and t: "term_exit env = Some c" for c
  proof -
    from tick_changed_done [OF ch t] obtain s' where
      s': "tick MODE env s = Done s'" "PREV s' = observed MODE env s" by blast
    have "filter is_spawn (fresh s (final (tick MODE env s))) = [Spawn (next_pid s)]"
      using ch t by (simp add: tick_spawns)
    with s' show ?thesis by simp
  qed
  have r: "req_hash (final (tick MODE env s)) = req_hash s" if "changed MODE env s"
    using that by (simp add: tick_shape restart_app_final prepared_fields)
  have u: "fst (update_repo_once U env w) = 1"
    if "U \<noteq> []" "git_dir w" "LOCAL (git_fetch env w) \<noteq> REMOTE (git_fetch env w)"
    using that
    by (simp add: update_repo_once_def LOCAL_def REMOTE_def Let_def git_fetch_fields
        emit_fields split: fetch_outcome.splits option.splits)
  have k: "Kill SIGTERM p \<in> set (fresh w (state_of (watcher U (env # envs) w)))"
    if "U \<noteq> []" "git_dir w" "LOCAL (git_fetch env w) \<noteq> REMOTE (git_fetch env w)"
      "pid_file w = Some p" "child_exit env = None" "sleep_ok env" "moved env = None"
  proof -
    let ?u = "snd (update_repo_once U env w)"
    let ?k = "emit (Kill SIGTERM p)
                (echo ''[git] changes detected -> terminating app for restart'' ?u)"
    have o: "others env w = w" using that(7) by (simp add: others_def)
    obtain e1 where e1: "trace ?u = trace w @ e1"
      using update_repo_once_trace by blast
    have tk: "trace ?k = trace w @ (e1 @ [Echo ''[git] changes detected -> terminating app for restart'',
        Kill SIGTERM p])"
      by (simp add: emit_fields echo_fields e1)
    show ?thesis
    proof (cases "term_exit env")
      case (Some c)
      then have "state_of (watcher U (env # envs) w) = ?k"
        using that(4-6) o u [OF that(1-3)]
        by (simp add: Let_def echo_fields update_repo_once_frame)
      then show ?thesis using tk by (simp add: fresh_def)
    next
      case None
      then have w: "state_of (watcher U (env # envs) w) = state_of (watcher U envs ?k)"
        using that(4-6) o u [OF that(1-3)]
        by (simp add: Let_def echo_fields update_repo_once_frame)
      obtain e3 where "trace (state_of (watcher U envs ?k)) = trace ?k @ e3"
        using watcher_extends by blast
      then show ?thesis using tk w by (simp add: fresh_def)
    qed
  qed
  show ?thesis using d r u k by (simp add: tick_signals)
qed

text \<open>
  For the record, what \<open>install_reqs\<close> does with the digest when pip fails: the line
  \<^verbatim>\<open>echo -n "$cur" > .req.hash\<close> follows the pip command unconditionally, so the digest
  is stored all the same and the next call does not install.
\<close>

lemma install_reqs_stores_digest_after_failure:
  assumes "manifest s = Some d" "\<not> pip_ok env"
  shows "req_hash (install_reqs env s) = Some d"
    and "fresh (install_reqs env s) (install_reqs env' (install_reqs env s)) = []"
  using assms by (simp_all add: fresh_def install_reqs_fields)

theorem failed_install_does_not_stop_restart_witness:
  "\<not> pip_ok (interval0\<lparr>pip_ok := False\<rparr>)
   \<and> changed ''update'' (interval0\<lparr>pip_ok := False\<rparr>) checkout0
   \<and> term_exit (interval0\<lparr>pip_ok := False\<rparr>) = Some 143
   \<and> completed (tick ''update'' (interval0\<lparr>pip_ok := False\<rparr>) checkout0)
   \<and> filter is_kill (fresh checkout0 (final (tick ''update'' (interval0\<lparr>pip_ok := False\<rparr>) checkout0)))
       = [Kill SIGTERM 100]
   \<and> filter is_spawn (fresh checkout0 (final (tick ''update'' (interval0\<lparr>pip_ok := False\<rparr>) checkout0)))
       = [Spawn 101]
   \<and> git_dir checkout0
   \<and> LOCAL (git_fetch (interval0\<lparr>pip_ok := False\<rparr>) checkout0)
       \<noteq> REMOTE (git_fetch (interval0\<lparr>pip_ok := False\<rparr>) checkout0)
   \<and> fst (update_repo_once ''https://example.org/panel.git'' (interval0\<lparr>pip_ok := False\<rparr>) checkout0) = 1
   \<and> Kill SIGTERM 100 \<in> set (trace (state_of
        (watcher ''https://example.org/panel.git'' [interval0\<lparr>pip_ok := False\<rparr>] checkout0)))"
proof -
  let ?e = "interval0\<lparr>pip_ok := False\<rparr>"
  have c: "changed ''update'' ?e checkout0"
    by (simp add: changed_def observed_def origin_head_def git_fetch_fields checkout0_def
        interval0_def)
  have f: "\<not> pip_ok ?e" "term_exit ?e = Some 143" "git_dir checkout0"
    "LOCAL (git_fetch ?e checkout0) \<noteq> REMOTE (git_fetch ?e checkout0)"
    "pid_file checkout0 = Some 100" "child_exit ?e = None" "sleep_ok ?e" "moved ?e = None"
    "trace checkout0 = []" "APP_PID checkout0 = 100" "next_pid checkout0 = 101"
    by (simp_all add: LOCAL_def REMOTE_def git_fetch_fields checkout0_def interval0_def)
  from failed_install_does_not_stop_restart [OF f(1), of "''update''" checkout0
      "''https://example.org/panel.git''" checkout0 100 "[]"] c f
  show ?thesis by (auto simp add: fresh_def tick_completed)
qed

text \<open>
  The claim as written fails in the Dockerfile entrypoint, which runs
  \<^verbatim>\<open>pip install ... >/dev/null 2>&1 || true\<close> and keeps no digest: a tick whose install
  fails prints exactly what a tick whose install works prints, so no warning is reported,
  and the next tick, seeing the same remote head, does not run pip again.
\<close>

theorem silent_install_failure_counterexample:
  "\<not> pip_ok (interval0\<lparr>pip_ok := False\<rparr>)
   \<and> filter is_echo (trace (final (tick ''update'' (interval0\<lparr>pip_ok := False\<rparr>) checkout0)))
       = [Echo ''[git] update: abc123 -> def456'', Echo ''[git] installing requirements...'']
   \<and> filter is_echo (trace (final (tick ''update'' (interval0\<lparr>pip_ok := False\<rparr>) checkout0)))
       = filter is_echo (trace (final (tick ''update'' interval0 checkout0)))
   \<and> fresh (final (tick ''update'' (interval0\<lparr>pip_ok := False\<rparr>) checkout0))
        (final (tick ''update'' interval0
           (final (tick ''update'' (interval0\<lparr>pip_ok := False\<rparr>) checkout0))))
       = [GitFetch True]"
  by (simp add: fresh_def tick_def restart_app_def install_deps_def git_reset_def git_fetch_def
      log_def emit_def spawn_def origin_head_def Let_def checkout0_def interval0_def)



lemma spawn_fields:
  "trace (spawn s) = trace s @ [Spawn (next_pid s)]" "APP_PID (spawn s) = next_pid s"
  "next_pid (spawn s) = Suc (next_pid s)" "pid_file (spawn s) = pid_file s"
  by (simp_all add: spawn_def emit_def)

lemma watcher_detects:
  assumes "pid_file w = Some p" "child_exit env = None" "sleep_ok env"
    and "fst (update_repo_once U env (others env w)) \<noteq> 0"
  shows "Kill SIGTERM p \<in> set (fresh w (state_of (watcher U (env # envs) w)))"
    and "term_exit env = Some c \<Longrightarrow>
         watcher U (env # envs) w =
           Exited c (emit (Kill SIGTERM p)
             (echo ''[git] changes detected -> terminating app for restart''
               (snd (update_repo_once U env (others env w)))))"
proof -
  let ?u = "snd (update_repo_once U env (others env w))"
  let ?k = "emit (Kill SIGTERM p)
              (echo ''[git] changes detected -> terminating app for restart'' ?u)"
  have pf: "pid_file ?u = Some p"
    using assms(1) by (simp add: update_repo_once_frame fields_others)
  obtain e1 where e1: "trace ?u = trace w @ e1"
    using update_repo_once_trace [of U env "others env w"] by (auto simp add: trace_others)
  have tk: "trace ?k = trace w @ (e1 @ [Echo ''[git] changes detected -> terminating app for restart'',
      Kill SIGTERM p])"
    by (simp add: emit_fields echo_fields e1)
  show x: "term_exit env = Some c \<Longrightarrow> watcher U (env # envs) w = Exited c ?k"
    using assms(2-4) pf by (simp add: Let_def echo_fields)
  show "Kill SIGTERM p \<in> set (fresh w (state_of (watcher U (env # envs) w)))"
  proof (cases "term_exit env")
    case (Some d)
    then have "state_of (watcher U (env # envs) w) = ?k"
      using assms(2-4) pf by (simp add: Let_def echo_fields)
    then show ?thesis using tk by (simp add: fresh_def)
  next
    case None
    then have w: "state_of (watcher U (env # envs) w) = state_of (watcher U envs ?k)"
      using assms(2-4) pf by (simp add: Let_def echo_fields)
    obtain e3 where "trace (state_of (watcher U envs ?k)) = trace ?k @ e3"
      using watcher_extends by blast
    then show ?thesis using tk w by (simp add: fresh_def)
  qed
qed

lemma git_entrypoint_spawns:
  "filter is_spawn (trace (state_of (git_entrypoint U app env0 envs s)))
     = filter is_spawn (trace s) @ [Spawn (next_pid s)]"
proof -
  let ?s1 = "snd (update_repo_once U env0 s)"
  let ?s3 = "spawn (echo ''[app] starting'' ?s1)"
  obtain e1 where e1: "trace ?s1 = trace s @ e1" "filter is_spawn e1 = []"
    using update_repo_once_trace by blast
  have t3: "filter is_spawn (trace ?s3) = filter is_spawn (trace s) @ [Spawn (next_pid s)]"
    using e1 by (simp add: spawn_fields echo_fields update_repo_once_frame)
  show ?thesis
    by (cases app) (simp_all add: git_entrypoint_def Let_def watcher_spawns t3)
qed

section \<open>The lock around the pull\<close>

lemma guarded_append:
  "guarded h (js @ ks) = (guarded h js \<and> guarded (holder_after h js) ks)"
  by (induction h js rule: guarded.induct) simp_all

lemma holder_after_append:
  "holder_after h (js @ ks) = holder_after (holder_after h js) ks"
  by (induction h js rule: holder_after.induct) simp_all

lemma fresh_emit: "fresh s (emit e s) = [e]"
  by (simp add: fresh_def emit_fields)

lemma fresh_step:
  "fresh s (git_fetch env s) = [GitFetch (fetch env \<noteq> FetchFails)]"
  "fresh s (echo m s) = [Echo m]"
  "fresh s (git_reset env a t s) = [GitReset a (reset_ok env \<and> t \<noteq> None)]"
  "fresh s (emit Unlock (install_reqs env s)) =
     (if manifest s \<noteq> None \<and> req_hash s \<noteq> manifest s
      then [Echo ''[deps] installing requirements...'', PipInstall (pip_ok env)]
      else []) @ [Unlock]"
  by (simp_all add: fresh_def git_fetch_fields echo_fields git_reset_fields emit_fields
      install_reqs_fields)

lemma move_fields:
  "journal (move i next s' sys) = journal sys @ map (Pair i) (fresh (shared sys) s')"
  "holder (move i next s' sys) = holder sys"
  "shared (move i next s' sys) = s'"
  "procs (move i next s' sys) = (procs sys)[i := (procs sys ! i)\<lparr>at := next\<rparr>]"
  by (simp_all add: move_def)

lemma step_inv:
  assumes "lock_inv sys"
  shows "lock_inv (step i sys)"
proof (cases "i < length (procs sys)")
  case False
  with assms show ?thesis by (simp add: step_def)
next
  case True
  from assms have g: "guarded None (journal sys)"
    and h: "holder_after None (journal sys) = holder sys"
    and c: "\<And>j. j < length (procs sys) \<Longrightarrow> in_cs (at (procs sys ! j)) = (holder sys = Some j)"
    by (simp_all add: lock_inv_def)
  note ci = c [OF True]
  show ?thesis
  proof (cases "at (procs sys ! i)")
    case AtFlock
    show ?thesis
    proof (cases "holder sys")
      case None
      then show ?thesis using True AtFlock g h c
        by (auto simp add: lock_inv_def step_def Let_def move_fields fresh_emit guarded_append
            holder_after_append nth_list_update)
    next
      case (Some k)
      then show ?thesis using True AtFlock assms by (simp add: step_def Let_def)
    qed
  next
    case AtSetUrl
    then show ?thesis using True g h c ci
      by (auto simp add: lock_inv_def step_def Let_def move_fields fresh_emit guarded_append
          holder_after_append nth_list_update)
  next
    case AtFetch
    then show ?thesis using True g h c ci
      by (auto simp add: lock_inv_def step_def Let_def move_fields fresh_step guarded_append
          holder_after_append nth_list_update)
  next
    case AtCompare
    then show ?thesis using True g h c ci
      by (auto simp add: lock_inv_def step_def Let_def move_fields fresh_step fresh_emit
          guarded_append holder_after_append nth_list_update)
  next
    case AtReset
    then show ?thesis using True g h c ci
      by (auto simp add: lock_inv_def step_def Let_def move_fields fresh_step guarded_append
          holder_after_append nth_list_update)
  next
    case AtInstall
    then show ?thesis using True g h c ci
      by (auto simp add: lock_inv_def step_def Let_def move_fields fresh_step guarded_append
          holder_after_append nth_list_update)
  next
    case (Returned rc)
    then show ?thesis using True assms by (simp add: step_def Let_def)
  qed
qed

lemma run_inv: "lock_inv sys \<Longrightarrow> lock_inv (run sched sys)"
  by (induction sched arbitrary: sys) (simp_all add: step_inv)

lemma init_inv: "lock_inv (init envs s)"
  by (simp add: lock_inv_def init_def)

lemma length_procs_step: "length (procs (step i sys)) = length (procs sys)"
  by (simp add: step_def Let_def move_fields split: pc.splits)

lemma length_procs_run: "length (procs (run sched sys)) = length (procs sys)"
  by (induction sched arbitrary: sys) (simp_all add: length_procs_step)

lemma alone_refines:
  assumes "U \<noteq> []" "git_dir s"
  shows "shared (run [0, 0, 0, 0, 0, 0] (init [env] s)) = snd (update_repo_once U env s)"
    and "at (procs (run [0, 0, 0, 0, 0, 0] (init [env] s)) ! 0)
           = Returned (fst (update_repo_once U env s))"
    and "holder (run [0, 0, 0, 0, 0, 0] (init [env] s)) = None"
  using assms
  by (simp_all add: init_def step_def move_def update_repo_once_def Let_def LOCAL_def REMOTE_def
      git_fetch_fields emit_fields echo_fields git_reset_fields)

lemma run_exclusive:
  assumes "i < length envs" "j < length envs"
    and "in_cs (at (procs (run sched (init envs s)) ! i))"
    and "in_cs (at (procs (run sched (init envs s)) ! j))"
  shows "i = j"
proof -
  let ?sys = "run sched (init envs s)"
  have inv: "lock_inv ?sys" by (simp add: run_inv init_inv)
  have l: "length (procs ?sys) = length envs" by (simp add: length_procs_run init_def)
  from inv l assms(1,3) have "holder ?sys = Some i" by (simp add: lock_inv_def)
  moreover from inv l assms(2,4) have "holder ?sys = Some j" by (simp add: lock_inv_def)
  ultimately show ?thesis by simp
qed

text \<open>
  Claim C4, as the code has it. For any number of git-entrypoint.sh processes that open the
  same \<^verbatim>\<open>/.gitpull.lock\<close> on one checkout, and any interleaving of their commands: every
  \<^verbatim>\<open>flock\<close> that returns finds the lock free, every release is by the holder, and every
  git or pip command of the block (set-url, fetch, hard reset, install) is run by the
  process holding the lock, so two executions of the block never overlap; no two processes
  are inside the block at once. The commands stepped through one at a time are those of
  \<open>update_repo_once\<close> on an existing checkout: a process running alone ends in the state
  and with the return code that \<open>update_repo_once\<close> gives.
\<close>

theorem flock_serialises_the_pull:
  "guarded None (journal (run sched (init envs s)))
   \<and> (\<forall>i<length envs. \<forall>j<length envs.
         in_cs (at (procs (run sched (init envs s)) ! i))
         \<and> in_cs (at (procs (run sched (init envs s)) ! j)) \<longrightarrow> i = j)
   \<and> (U \<noteq> [] \<and> git_dir s \<longrightarrow>
         shared (run [0, 0, 0, 0, 0, 0] (init [env] s)) = snd (update_repo_once U env s)
       \<and> at (procs (run [0, 0, 0, 0, 0, 0] (init [env] s)) ! 0)
           = Returned (fst (update_repo_once U env s))
       \<and> holder (run [0, 0, 0, 0, 0, 0] (init [env] s)) = None)"
proof -
  have "lock_inv (run sched (init envs s))" by (simp add: run_inv init_inv)
  then have "guarded None (journal (run sched (init envs s)))" by (simp add: lock_inv_def)
  then show ?thesis
    using run_exclusive [of _ envs _ sched s] alone_refines [of U s env] by blast
qed

theorem flock_serialises_the_pull_witness:
  "(0::nat) < length [interval0, interval0\<lparr>reset_ok := False\<rparr>]
   \<and> (1::nat) < length [interval0, interval0\<lparr>reset_ok := False\<rparr>]
   \<and> in_cs (at (procs (run [0, 1, 0, 1]
        (init [interval0, interval0\<lparr>reset_ok := False\<rparr>] checkout0)) ! 0))
   \<and> at (procs (run [0, 1, 0, 1]
        (init [interval0, interval0\<lparr>reset_ok := False\<rparr>] checkout0)) ! 1) = AtFlock
   \<and> journal (run [0, 1, 0, 1, 0, 0, 0, 0, 1, 1]
        (init [interval0, interval0\<lparr>reset_ok := False\<rparr>] checkout0))
      = [(0, Flock), (0, GitSetUrl), (0, GitFetch True),
         (0, Echo ''[git] update: abc123 -> def456''), (0, GitReset ''origin/BRANCH'' True),
         (0, Echo ''[deps] installing requirements...''), (0, PipInstall True), (0, Unlock),
         (1, Flock), (1, GitSetUrl)]
   \<and> guarded None (journal (run [0, 1, 0, 1, 0, 0, 0, 0, 1, 1]
        (init [interval0, interval0\<lparr>reset_ok := False\<rparr>] checkout0)))
   \<and> ''https://example.org/panel.git'' \<noteq> [] \<and> git_dir checkout0
   \<and> at (procs (run [0, 0, 0, 0, 0, 0] (init [interval0] checkout0)) ! 0) = Returned 1"
  using flock_serialises_the_pull [of "[0, 1, 0, 1, 0, 0, 0, 0, 1, 1]"
      "[interval0, interval0\<lparr>reset_ok := False\<rparr>]" checkout0
      "''https://example.org/panel.git''" interval0]
    flock_serialises_the_pull [of "[0, 1, 0, 1]"
      "[interval0, interval0\<lparr>reset_ok := False\<rparr>]" checkout0
      "''https://example.org/panel.git''" interval0]
  by (simp add: init_def step_def move_def fresh_def Let_def LOCAL_def REMOTE_def
      git_fetch_def git_reset_def install_reqs_def echo_def emit_def update_repo_once_def
      checkout0_def interval0_def)

text \<open>
  The claim as written fails in the Dockerfile entrypoint, which takes no lock at all: its
  update tick fetches and hard-resets the checkout without any \<^verbatim>\<open>flock\<close>.
\<close>

theorem reset_without_lock_counterexample:
  "trace (final (tick ''update'' interval0 checkout0))
     = [GitFetch True, Echo ''[git] update: abc123 -> def456'', GitReset ''def456'' True,
        Echo ''[git] installing requirements...'', PipInstall True,
        Kill SIGTERM 100, Wait 100, Spawn 101]
   \<and> Flock \<notin> set (trace (final (tick ''update'' interval0 checkout0)))
   \<and> \<not> guarded None (map (Pair 0) (trace (final (tick ''update'' interval0 checkout0))))"
  by (simp add: tick_def restart_app_def install_deps_def git_reset_def git_fetch_def log_def
      emit_def spawn_def origin_head_def Let_def checkout0_def interval0_def)

section \<open>Runs, one interval at a time\<close>

lemma loop_snoc:
  "loop MODE envs s = Running s1 \<Longrightarrow> loop MODE (envs @ rest) s = loop MODE rest s1"
proof (induction envs arbitrary: s)
  case Nil
  then show ?case by simp
next
  case (Cons env envs)
  show ?case
  proof (cases "sleep_ok env")
    case False
    with Cons.prems show ?thesis by simp
  next
    case True
    show ?thesis
    proof (cases "tick MODE env (others env s)")
      case (Done s')
      with True Cons.prems have "loop MODE envs s' = Running s1" by simp
      from Cons.IH [OF this] True Done show ?thesis by simp
    next
      case (Blocked b)
      with True Cons.prems show ?thesis by simp
    qed
  qed
qed

lemma loop_one:
  "loop MODE [env] s =
     (if \<not> sleep_ok env then Exited 0 s
      else if completed (tick MODE env (others env s))
           then Running (final (tick MODE env (others env s)))
           else Stuck (final (tick MODE env (others env s))))"
  by (cases "tick MODE env (others env s)") simp_all



lemma watcher_snoc:
  "\<forall>e\<in>set envs. sleep_ok e \<Longrightarrow> watcher U envs w = Running w1 \<Longrightarrow>
   watcher U (envs @ rest) w = watcher U rest w1"
proof (induction envs arbitrary: w)
  case Nil
  then show ?case by simp
next
  case (Cons env envs)
  let ?r = "update_repo_once U env (others env w)"
  let ?k = "emit (Kill SIGTERM (case pid_file (echo
              ''[git] changes detected -> terminating app for restart'' (snd ?r)) of
              Some p \<Rightarrow> p | None \<Rightarrow> 0))
              (echo ''[git] changes detected -> terminating app for restart'' (snd ?r))"
  have sl: "sleep_ok env" "\<forall>e\<in>set envs. sleep_ok e" using Cons.prems(1) by simp_all
  show ?case
  proof (cases "child_exit env")
    case (Some c)
    with Cons.prems(2) show ?thesis by simp
  next
    case None
    note ce = None
    show ?thesis
    proof (cases "fst ?r = 0")
      case True
      with ce sl(1) Cons.prems(2) have "watcher U envs (snd ?r) = Running w1" by simp
      from Cons.IH [OF sl(2) this] ce sl(1) True show ?thesis by simp
    next
      case False
      show ?thesis
      proof (cases "term_exit env")
        case (Some c)
        with ce sl(1) False Cons.prems(2) show ?thesis by (simp add: Let_def)
      next
        case None
        with ce sl(1) False Cons.prems(2) have "watcher U envs ?k = Running w1"
          by (simp add: Let_def)
        from Cons.IH [OF sl(2) this] ce sl(1) False None show ?thesis by (simp add: Let_def)
      qed
    qed
  qed
qed

lemma watcher_one:
  assumes "child_exit env = None" "sleep_ok env"
  shows "filter is_kill (fresh w (state_of (watcher U [env] w))) =
           (if fst (update_repo_once U env (others env w)) \<noteq> 0
            then [Kill SIGTERM (case pid_file w of Some p \<Rightarrow> p | None \<Rightarrow> 0)] else [])"
proof -
  let ?r = "update_repo_once U env (others env w)"
  obtain e1 where e1: "trace (snd ?r) = trace w @ e1" "filter is_kill e1 = []"
    using update_repo_once_trace [of U env "others env w"] by (auto simp add: trace_others)
  have pf: "pid_file (snd ?r) = pid_file w" by (simp add: update_repo_once_frame fields_others)
  show ?thesis
  proof (cases "fst ?r = 0")
    case True
    then show ?thesis using assms e1 by (simp add: fresh_def)
  next
    case False
    then show ?thesis using assms e1 pf
      by (simp add: fresh_def Let_def echo_fields emit_fields split: option.splits)
  qed
qed

lemma entrypoint_supervised:
  assumes "MODE \<noteq> ''off''" "git_dir s"
  shows "\<exists>s0. (\<forall>envs. entrypoint MODE app envs s = loop MODE envs s0)
            \<and> PREV s0 = current_head s \<and> APP_PID s0 = next_pid s
            \<and> next_pid s0 = Suc (next_pid s) \<and> head s0 = head s
            \<and> filter is_spawn (fresh s s0) = [Spawn (next_pid s)]
            \<and> filter is_kill (fresh s s0) = []"
proof -
  let ?s1 = "spawn s"
  let ?s2 = "?s1\<lparr>PREV := current_head ?s1\<rparr>"
  let ?s0 = "log (''mode='' @ MODE @ '' prev='' @ PREV ?s2) ?s2"
  have "\<forall>envs. entrypoint MODE app envs s = loop MODE envs ?s0"
    using assms by (simp add: entrypoint_def Let_def)
  moreover have "PREV ?s0 = current_head s" "APP_PID ?s0 = next_pid s"
    "next_pid ?s0 = Suc (next_pid s)" "head ?s0 = head s"
    "filter is_spawn (fresh s ?s0) = [Spawn (next_pid s)]" "filter is_kill (fresh s ?s0) = []"
    by (simp_all add: log_def spawn_def emit_def current_head_def fresh_def
        split: option.splits)
  ultimately show ?thesis by blast
qed

lemma fresh_others: "fresh (others env s) s' = fresh s s'"
  by (simp add: fresh_def trace_others)

lemma watch_run_quiet:
  assumes "MODE \<noteq> ''update''" "loop MODE envs s = Running s1" "sleep_ok env"
    "moved env = None" "current_head s1 = PREV s1"
  shows "loop MODE (envs @ [env]) s = Running s1"
proof -
  have o: "others env s1 = s1" using assms(4) by (simp add: others_def)
  have "loop MODE [env] s1 = Running s1"
    using assms(1,3,5) o by (simp add: watch_tick_same)
  with loop_snoc [OF assms(2), of "[env]"] show ?thesis by simp
qed

lemma watch_run_detects:
  assumes "MODE \<noteq> ''update''" "loop MODE envs s = Running s1" "sleep_ok env"
    "moved env = Some c" "c \<noteq> PREV s1"
  shows "fresh s1 (state_of (loop MODE (envs @ [env]) s)) =
           Echo (''[git] detected change: '' @ PREV s1 @ '' -> '' @ c @ '' (watch-only)'')
           # (if tree_manifest env = None then []
              else [Echo ''[git] installing requirements...'', PipInstall (pip_ok env)])
           @ Kill SIGTERM (APP_PID s1)
           # (case term_exit env of
                None \<Rightarrow> []
              | Some x \<Rightarrow> [Wait (APP_PID s1), Spawn (next_pid s1)])"
    and "term_exit env = Some x \<Longrightarrow>
         \<exists>s2. loop MODE (envs @ [env]) s = Running s2 \<and> PREV s2 = c
            \<and> APP_PID s2 = next_pid s1 \<and> head s2 = Some c"
    and "term_exit env = None \<Longrightarrow> \<exists>b. loop MODE (envs @ [env]) s = Stuck b"
proof -
  let ?t = "others env s1"
  have f: "current_head ?t = c" "PREV ?t = PREV s1" "manifest ?t = tree_manifest env"
    "APP_PID ?t = APP_PID s1" "next_pid ?t = next_pid s1" "head ?t = Some c"
    using assms(4) by (simp_all add: others_def current_head_def)
  have ne: "current_head ?t \<noteq> PREV ?t" using f assms(5) by simp
  have run: "loop MODE (envs @ [env]) s = loop MODE [env] s1"
    using loop_snoc [OF assms(2), of "[env]"] by simp
  have st: "state_of (loop MODE [env] s1) = final (tick MODE env ?t)"
    using assms(3) by (cases "tick MODE env ?t") simp_all
  show "fresh s1 (state_of (loop MODE (envs @ [env]) s)) =
           Echo (''[git] detected change: '' @ PREV s1 @ '' -> '' @ c @ '' (watch-only)'')
           # (if tree_manifest env = None then []
              else [Echo ''[git] installing requirements...'', PipInstall (pip_ok env)])
           @ Kill SIGTERM (APP_PID s1)
           # (case term_exit env of
                None \<Rightarrow> []
              | Some x \<Rightarrow> [Wait (APP_PID s1), Spawn (next_pid s1)])"
    using watch_tick_trace [OF assms(1) ne, of env] f run st
    by (simp add: fresh_others split: option.splits)
  show "\<exists>s2. loop MODE (envs @ [env]) s = Running s2 \<and> PREV s2 = c
            \<and> APP_PID s2 = next_pid s1 \<and> head s2 = Some c"
    if "term_exit env = Some x"
  proof -
    from watch_tick_done [OF assms(1) ne that] obtain s' where
      "tick MODE env ?t = Done s'" "PREV s' = current_head ?t" "APP_PID s' = next_pid ?t"
      "head s' = head ?t" by blast
    then show ?thesis using run assms(3) f by simp
  qed
  show "\<exists>b. loop MODE (envs @ [env]) s = Stuck b" if "term_exit env = None"
  proof -
    have "changed MODE env ?t" using assms(1) ne by (simp add: changed_def observed_def)
    then have "\<not> completed (tick MODE env ?t)" using that by (simp add: tick_completed)
    then show ?thesis using run assms(3) by (cases "tick MODE env ?t") simp_all
  qed
qed

section \<open>Watch mode\<close>

text \<open>
  Claim C8. In watch mode (any \<open>MODE\<close> that reaches the loop and is not \<open>update\<close>) no run
  of the loop ever executes a git command, so no fetch and no reset. Every interval of a
  run compares \<open>current_head\<close> with \<open>PREV\<close> only. After any run that is still polling: an
  interval in which nobody moves HEAD, with HEAD as remembered, changes nothing; an
  interval in which another container moves HEAD to a value other than \<open>PREV\<close> makes the
  loop log the change, run \<open>install_deps\<close>, send one SIGTERM to the child and, once the
  child has exited, wait for it and start exactly one new child, remembering the new head
  in \<open>PREV\<close> (a child that never exits leaves the loop in \<^verbatim>\<open>wait\<close>). The same is stated of
  the loop body on any state, and the entrypoint runs this loop from the state in which
  the first child has been spawned and \<open>PREV\<close> is the head read at the start.
\<close>

theorem watch_mode_local_comparison:
  assumes "MODE \<noteq> ''update''"
  shows "filter is_git (trace (state_of (loop MODE envs s))) = filter is_git (trace s)
       \<and> (current_head s = PREV s \<longrightarrow> tick MODE env s = Done s)
       \<and> (current_head s \<noteq> PREV s \<longrightarrow>
            fresh s (final (tick MODE env s)) =
              Echo (''[git] detected change: '' @ PREV s @ '' -> '' @ current_head s
                    @ '' (watch-only)'')
              # (if manifest s = None then []
                 else [Echo ''[git] installing requirements...'', PipInstall (pip_ok env)])
              @ Kill SIGTERM (APP_PID s)
              # (case term_exit env of
                   None \<Rightarrow> []
                 | Some c \<Rightarrow> [Wait (APP_PID s), Spawn (next_pid s)])
          \<and> (\<forall>c. term_exit env = Some c \<longrightarrow>
                (\<exists>s'. tick MODE env s = Done s' \<and> PREV s' = current_head s
                     \<and> APP_PID s' = next_pid s \<and> head s' = head s)))
       \<and> (loop MODE envs s = Running s1 \<and> sleep_ok env \<and> moved env = None
            \<and> current_head s1 = PREV s1 \<longrightarrow>
            loop MODE (envs @ [env]) s = Running s1)
       \<and> (loop MODE envs s = Running s1 \<and> sleep_ok env \<and> moved env = Some h
            \<and> h \<noteq> PREV s1 \<longrightarrow>
            fresh s1 (state_of (loop MODE (envs @ [env]) s)) =
              Echo (''[git] detected change: '' @ PREV s1 @ '' -> '' @ h @ '' (watch-only)'')
              # (if tree_manifest env = None then []
                 else [Echo ''[git] installing requirements...'', PipInstall (pip_ok env)])
              @ Kill SIGTERM (APP_PID s1)
              # (case term_exit env of
                   None \<Rightarrow> []
                 | Some x \<Rightarrow> [Wait (APP_PID s1), Spawn (next_pid s1)])
          \<and> (\<forall>x. term_exit env = Some x \<longrightarrow>
                (\<exists>s2. loop MODE (envs @ [env]) s = Running s2 \<and> PREV s2 = h
                     \<and> APP_PID s2 = next_pid s1 \<and> head s2 = Some h))
          \<and> (term_exit env = None \<longrightarrow> (\<exists>b. loop MODE (envs @ [env]) s = Stuck b)))
       \<and> (MODE \<noteq> ''off'' \<and> git_dir s \<longrightarrow>
            (\<exists>s0. (\<forall>envs. entrypoint MODE app envs s = loop MODE envs s0)
                 \<and> PREV s0 = current_head s \<and> APP_PID s0 = next_pid s
                 \<and> next_pid s0 = Suc (next_pid s) \<and> head s0 = head s
                 \<and> filter is_spawn (fresh s s0) = [Spawn (next_pid s)]
                 \<and> filter is_kill (fresh s s0) = []))"
proof (intro conjI impI allI)
  show "filter is_git (trace (state_of (loop MODE envs s))) = filter is_git (trace s)"
    using assms by (rule watch_loop_git)
  show "tick MODE env s = Done s" if "current_head s = PREV s"
    using assms that by (rule watch_tick_same)
  show "fresh s (final (tick MODE env s)) =
              Echo (''[git] detected change: '' @ PREV s @ '' -> '' @ current_head s
                    @ '' (watch-only)'')
              # (if manifest s = None then []
                 else [Echo ''[git] installing requirements...'', PipInstall (pip_ok env)])
              @ Kill SIGTERM (APP_PID s)
              # (case term_exit env of
                   None \<Rightarrow> []
                 | Some c \<Rightarrow> [Wait (APP_PID s), Spawn (next_pid s)])"
    if "current_head s \<noteq> PREV s"
    using assms that by (rule watch_tick_trace)
  show "\<exists>s'. tick MODE env s = Done s' \<and> PREV s' = current_head s
                     \<and> APP_PID s' = next_pid s \<and> head s' = head s"
    if "current_head s \<noteq> PREV s" "term_exit env = Some c" for c
    using assms that by (rule watch_tick_done)
  show "loop MODE (envs @ [env]) s = Running s1"
    if "loop MODE envs s = Running s1 \<and> sleep_ok env \<and> moved env = None
            \<and> current_head s1 = PREV s1"
    using assms that by (intro watch_run_quiet) simp_all
  show "fresh s1 (state_of (loop MODE (envs @ [env]) s)) =
              Echo (''[git] detected change: '' @ PREV s1 @ '' -> '' @ h @ '' (watch-only)'')
              # (if tree_manifest env = None then []
                 else [Echo ''[git] installing requirements...'', PipInstall (pip_ok env)])
              @ Kill SIGTERM (APP_PID s1)
              # (case term_exit env of
                   None \<Rightarrow> []
                 | Some x \<Rightarrow> [Wait (APP_PID s1), Spawn (next_pid s1)])"
    if "loop MODE envs s = Running s1 \<and> sleep_ok env \<and> moved env = Some h
            \<and> h \<noteq> PREV s1"
    using assms that by (intro watch_run_detects(1)) simp_all
  show "\<exists>s2. loop MODE (envs @ [env]) s = Running s2 \<and> PREV s2 = h
                     \<and> APP_PID s2 = next_pid s1 \<and> head s2 = Some h"
    if "loop MODE envs s = Running s1 \<and> sleep_ok env \<and> moved env = Some h
            \<and> h \<noteq> PREV s1" "term_exit env = Some x" for x
    using assms that by (intro watch_run_detects(2) [of MODE envs s s1 env h x]) simp_all
  show "\<exists>b. loop MODE (envs @ [env]) s = Stuck b"
    if "loop MODE envs s = Running s1 \<and> sleep_ok env \<and> moved env = Some h
            \<and> h \<noteq> PREV s1" "term_exit env = None"
    using assms that by (intro watch_run_detects(3) [of MODE envs s s1 env h]) simp_all
  show "\<exists>s0. (\<forall>envs. entrypoint MODE app envs s = loop MODE envs s0)
                 \<and> PREV s0 = current_head s \<and> APP_PID s0 = next_pid s
                 \<and> next_pid s0 = Suc (next_pid s) \<and> head s0 = head s
                 \<and> filter is_spawn (fresh s s0) = [Spawn (next_pid s)]
                 \<and> filter is_kill (fresh s s0) = []"
    if "MODE \<noteq> ''off'' \<and> git_dir s"
    using that by (intro entrypoint_supervised) simp_all
qed

theorem watch_mode_local_comparison_witness:
  "''watch'' \<noteq> ''update'' \<and> ''watch'' \<noteq> ''off'' \<and> git_dir checkout0
   \<and> current_head checkout0 = PREV checkout0
   \<and> tick ''watch'' interval0 checkout0 = Done checkout0
   \<and> loop ''watch'' [] checkout0 = Running checkout0
   \<and> sleep_ok (interval0\<lparr>moved := Some ''def456''\<rparr>)
   \<and> moved (interval0\<lparr>moved := Some ''def456''\<rparr>) = Some ''def456''
   \<and> ''def456'' \<noteq> PREV checkout0
   \<and> term_exit (interval0\<lparr>moved := Some ''def456''\<rparr>) = Some 143
   \<and> fresh checkout0 (state_of
        (loop ''watch'' ([] @ [interval0\<lparr>moved := Some ''def456''\<rparr>]) checkout0))
       = [Echo ''[git] detected change: abc123 -> def456 (watch-only)'',
          Echo ''[git] installing requirements...'', PipInstall True,
          Kill SIGTERM 100, Wait 100, Spawn 101]
   \<and> trace (state_of
        (entrypoint ''watch'' Started [interval0\<lparr>moved := Some ''def456''\<rparr>] checkout0))
       = [Spawn 101, Echo ''[git] mode=watch prev=abc123'',
          Echo ''[git] detected change: abc123 -> def456 (watch-only)'',
          Echo ''[git] installing requirements...'', PipInstall True,
          Kill SIGTERM 101, Wait 101, Spawn 102]"
proof -
  have ne: "''watch'' \<noteq> ''update''" by simp
  have c: "current_head checkout0 = PREV checkout0"
    by (simp add: current_head_def checkout0_def)
  have k: "tick ''watch'' interval0 checkout0 = Done checkout0"
    by (rule watch_mode_local_comparison [OF ne, THEN conjunct2, THEN conjunct1, THEN mp])
      (rule c)
  have a: "fresh checkout0 (state_of
        (loop ''watch'' ([] @ [interval0\<lparr>moved := Some ''def456''\<rparr>]) checkout0))
       = [Echo ''[git] detected change: abc123 -> def456 (watch-only)'',
          Echo ''[git] installing requirements...'', PipInstall True,
          Kill SIGTERM 100, Wait 100, Spawn 101]"
    by (simp add: fresh_def tick_def restart_app_def install_deps_def others_def
        current_head_def log_def spawn_def emit_def Let_def checkout0_def interval0_def)
  have b: "trace (state_of
        (entrypoint ''watch'' Started [interval0\<lparr>moved := Some ''def456''\<rparr>] checkout0))
       = [Spawn 101, Echo ''[git] mode=watch prev=abc123'',
          Echo ''[git] detected change: abc123 -> def456 (watch-only)'',
          Echo ''[git] installing requirements...'', PipInstall True,
          Kill SIGTERM 101, Wait 101, Spawn 102]"
    by (simp add: entrypoint_def tick_def restart_app_def install_deps_def others_def
        current_head_def log_def spawn_def emit_def Let_def checkout0_def interval0_def)
  have d: "git_dir checkout0" "''def456'' \<noteq> PREV checkout0"
    "sleep_ok (interval0\<lparr>moved := Some ''def456''\<rparr>)"
    "term_exit (interval0\<lparr>moved := Some ''def456''\<rparr>) = Some 143"
    by (simp_all add: checkout0_def interval0_def)
  show ?thesis using k c a b d by simp
qed

lemma loop_run_signals:
  assumes "loop MODE envs s = Running s1" "sleep_ok env"
  shows "filter is_kill (fresh s1 (state_of (loop MODE (envs @ [env]) s)))
           = (if changed MODE env (others env s1) then [Kill SIGTERM (APP_PID s1)] else [])"
    and "(\<exists>b. loop MODE (envs @ [env]) s = Stuck b)
           = (changed MODE env (others env s1) \<and> term_exit env = None)"
proof -
  let ?t = "others env s1"
  have run: "loop MODE (envs @ [env]) s = loop MODE [env] s1"
    using loop_snoc [OF assms(1), of "[env]"] by simp
  have st: "state_of (loop MODE [env] s1) = final (tick MODE env ?t)"
    using assms(2) by (cases "tick MODE env ?t") simp_all
  show "filter is_kill (fresh s1 (state_of (loop MODE (envs @ [env]) s)))
           = (if changed MODE env ?t then [Kill SIGTERM (APP_PID s1)] else [])"
    using tick_signals [of ?t MODE env] run st by (simp add: fresh_others fields_others)
  show "(\<exists>b. loop MODE (envs @ [env]) s = Stuck b)
           = (changed MODE env ?t \<and> term_exit env = None)"
    using run assms(2) tick_completed [of MODE env ?t]
    by (cases "tick MODE env ?t") auto
qed

lemma watcher_run_signals:
  assumes "\<forall>e\<in>set envs. sleep_ok e" "watcher U envs w = Running w1"
    "child_exit env = None" "sleep_ok env"
  shows "filter is_kill (fresh w1 (state_of (watcher U (envs @ [env]) w)))
           = (if fst (update_repo_once U env (others env w1)) \<noteq> 0
              then [Kill SIGTERM (case pid_file w1 of Some q \<Rightarrow> q | None \<Rightarrow> 0)] else [])"
  using watcher_snoc [OF assms(1,2), of "[env]"] watcher_one [OF assms(3,4), of w1 U]
  by simp

section \<open>How the child is terminated\<close>

text \<open>
  Claim C3, as the code has it. Dockerfile entrypoint: after any run that is still
  polling, the next interval sends exactly one signal if the tick sees a change and none
  otherwise, and that signal is SIGTERM to the current child. After the signal the
  supervisor waits for the child without any time limit: the run hangs in \<^verbatim>\<open>wait\<close>
  exactly when a change was seen and the child never exits. A new child is started only
  after the wait has returned, so only after the old one is known to be dead.
  git-entrypoint.sh: after any run in which the watcher is still polling, the next
  interval sends exactly one SIGTERM, to the pid in \<^verbatim>\<open>/tmp/app.pid\<close>, if
  \<open>update_repo_once\<close> reports a change, and no signal otherwise. No run of either
  entrypoint ever sends SIGKILL.
\<close>

theorem termination_is_sigterm_and_wait:
  "filter is_kill (fresh s (final (tick MODE env s)))
       = (if changed MODE env s then [Kill SIGTERM (APP_PID s)] else [])
   \<and> (changed MODE env s \<longrightarrow>
        (\<exists>pre. fresh s (final (tick MODE env s)) =
                 pre @ Kill SIGTERM (APP_PID s)
                   # (case term_exit env of
                        None \<Rightarrow> []
                      | Some c \<Rightarrow> [Wait (APP_PID s), Spawn (next_pid s)])
              \<and> filter is_kill pre = [] \<and> filter is_spawn pre = []))
   \<and> completed (tick MODE env s) = (changed MODE env s \<longrightarrow> term_exit env \<noteq> None)
   \<and> (loop MODE envs s = Running s1 \<and> sleep_ok env \<longrightarrow>
        filter is_kill (fresh s1 (state_of (loop MODE (envs @ [env]) s)))
          = (if changed MODE env (others env s1) then [Kill SIGTERM (APP_PID s1)] else [])
      \<and> (\<exists>b. loop MODE (envs @ [env]) s = Stuck b)
          = (changed MODE env (others env s1) \<and> term_exit env = None))
   \<and> ((\<forall>e\<in>set envs. sleep_ok e) \<and> watcher U envs w = Running w1
        \<and> child_exit env = None \<and> sleep_ok env \<longrightarrow>
        filter is_kill (fresh w1 (state_of (watcher U (envs @ [env]) w)))
          = (if fst (update_repo_once U env (others env w1)) \<noteq> 0
             then [Kill SIGTERM (case pid_file w1 of Some q \<Rightarrow> q | None \<Rightarrow> 0)] else []))
   \<and> Kill SIGKILL p \<notin> set (fresh s (state_of (loop MODE envs s)))
   \<and> Kill SIGKILL p \<notin> set (fresh w (state_of (watcher U envs w)))"
proof (intro conjI impI)
  show "filter is_kill (fresh s (final (tick MODE env s)))
       = (if changed MODE env s then [Kill SIGTERM (APP_PID s)] else [])"
    by (rule tick_signals)
  show "\<exists>pre. fresh s (final (tick MODE env s)) =
                 pre @ Kill SIGTERM (APP_PID s)
                   # (case term_exit env of
                        None \<Rightarrow> []
                      | Some c \<Rightarrow> [Wait (APP_PID s), Spawn (next_pid s)])
              \<and> filter is_kill pre = [] \<and> filter is_spawn pre = []"
    if "changed MODE env s"
    using that by (rule tick_changed_trace)
  show "completed (tick MODE env s) = (changed MODE env s \<longrightarrow> term_exit env \<noteq> None)"
    by (rule tick_completed)
  show "filter is_kill (fresh s1 (state_of (loop MODE (envs @ [env]) s)))
          = (if changed MODE env (others env s1) then [Kill SIGTERM (APP_PID s1)] else [])"
    if "loop MODE envs s = Running s1 \<and> sleep_ok env"
    using that by (intro loop_run_signals(1)) simp_all
  show "(\<exists>b. loop MODE (envs @ [env]) s = Stuck b)
          = (changed MODE env (others env s1) \<and> term_exit env = None)"
    if "loop MODE envs s = Running s1 \<and> sleep_ok env"
    using that by (intro loop_run_signals(2)) simp_all
  show "filter is_kill (fresh w1 (state_of (watcher U (envs @ [env]) w)))
          = (if fst (update_repo_once U env (others env w1)) \<noteq> 0
             then [Kill SIGTERM (case pid_file w1 of Some q \<Rightarrow> q | None \<Rightarrow> 0)] else [])"
    if "(\<forall>e\<in>set envs. sleep_ok e) \<and> watcher U envs w = Running w1
        \<and> child_exit env = None \<and> sleep_ok env"
    using that by (intro watcher_run_signals) simp_all
  show "Kill SIGKILL p \<notin> set (fresh s (state_of (loop MODE envs s)))"
    by (rule loop_never_sigkill)
  show "Kill SIGKILL p \<notin> set (fresh w (state_of (watcher U envs w)))"
    by (rule watcher_never_sigkill)
qed

theorem termination_is_sigterm_and_wait_witness:
  "changed ''update'' interval0 checkout0
   \<and> term_exit interval0 \<noteq> None
   \<and> completed (tick ''update'' interval0 checkout0)
   \<and> loop ''update'' [] checkout0 = Running checkout0 \<and> sleep_ok interval0
   \<and> changed ''update'' interval0 (others interval0 checkout0)
   \<and> filter is_kill (trace (state_of (loop ''update'' [interval0] checkout0)))
       = [Kill SIGTERM 100]
   \<and> watcher ''https://example.org/panel.git'' [] checkout0 = Running checkout0
   \<and> child_exit interval0 = None
   \<and> fst (update_repo_once ''https://example.org/panel.git'' interval0
        (others interval0 checkout0)) \<noteq> 0
   \<and> filter is_kill (trace (state_of
        (watcher ''https://example.org/panel.git'' [interval0] checkout0)))
       = [Kill SIGTERM 100]
   \<and> Kill SIGKILL 100 \<notin> set (trace (state_of (loop ''update'' [interval0] checkout0)))
   \<and> Kill SIGKILL 100 \<notin> set (trace (state_of
        (watcher ''https://example.org/panel.git'' [interval0] checkout0)))"
proof -
  have c: "changed ''update'' interval0 checkout0"
    by (simp add: changed_def observed_def origin_head_def git_fetch_fields checkout0_def
        interval0_def)
  have k: "filter is_kill (fresh checkout0 (final (tick ''update'' interval0 checkout0)))
       = (if changed ''update'' interval0 checkout0 then [Kill SIGTERM (APP_PID checkout0)]
          else [])"
    by (rule termination_is_sigterm_and_wait [THEN conjunct1])
  have k': "filter is_kill (trace (final (tick ''update'' interval0 checkout0)))
       = [Kill SIGTERM 100]"
    using k c by (simp add: fresh_def checkout0_def)
  have d: "completed (tick ''update'' interval0 checkout0)"
    "term_exit interval0 \<noteq> None" "sleep_ok interval0" "child_exit interval0 = None"
    "others interval0 checkout0 = checkout0"
    by (simp_all add: tick_def restart_app_def Let_def git_fetch_fields origin_head_def
        others_def checkout0_def interval0_def)
  have u: "fst (update_repo_once ''https://example.org/panel.git'' interval0 checkout0) \<noteq> 0"
    by (simp add: update_repo_once_def LOCAL_def REMOTE_def Let_def git_fetch_fields
        emit_fields checkout0_def interval0_def)
  have l: "state_of (loop ''update'' [interval0] checkout0)
       = final (tick ''update'' interval0 checkout0)"
    using d(1,3,5) by (cases "tick ''update'' interval0 checkout0") simp_all
  have w: "trace (state_of (watcher ''https://example.org/panel.git'' [interval0] checkout0))
     = [Flock, GitSetUrl, GitFetch True, Echo ''[git] update: abc123 -> def456'',
        GitReset ''origin/BRANCH'' True,
        Echo ''[deps] installing requirements...'', PipInstall True, Unlock,
        Echo ''[git] changes detected -> terminating app for restart'', Kill SIGTERM 100]"
    by (simp add: update_repo_once_def LOCAL_def REMOTE_def install_reqs_def git_reset_def
        git_fetch_def echo_def emit_def others_def Let_def checkout0_def interval0_def)
  have n: "Kill SIGKILL 100 \<notin> set (trace (final (tick ''update'' interval0 checkout0)))"
  proof
    assume "Kill SIGKILL 100 \<in> set (trace (final (tick ''update'' interval0 checkout0)))"
    then have "Kill SIGKILL 100
        \<in> set (filter is_kill (trace (final (tick ''update'' interval0 checkout0))))"
      by simp
    then show False unfolding k' by simp
  qed
  show ?thesis using c d u l w k' n by simp
qed

text \<open>
  The claim as written promises a forceful kill when the child outlives the grace period.
  With a child that ignores SIGTERM the supervisor sends that one SIGTERM and then hangs
  in \<^verbatim>\<open>wait\<close>: there is no grace period and no SIGKILL.
\<close>

theorem no_forceful_kill_counterexample:
  "term_exit (interval0\<lparr>term_exit := None\<rparr>) = None
   \<and> \<not> completed (tick ''update'' (interval0\<lparr>term_exit := None\<rparr>) checkout0)
   \<and> filter is_kill (trace (final (tick ''update'' (interval0\<lparr>term_exit := None\<rparr>) checkout0)))
       = [Kill SIGTERM 100]
   \<and> Kill SIGKILL 100
       \<notin> set (trace (final (tick ''update'' (interval0\<lparr>term_exit := None\<rparr>) checkout0)))
   \<and> filter is_kill (trace (state_of (watcher ''https://example.org/panel.git''
         [interval0\<lparr>term_exit := None\<rparr>] checkout0))) = [Kill SIGTERM 100]"
  by (simp add: tick_def restart_app_def install_deps_def git_reset_def git_fetch_def log_def
      emit_def spawn_def origin_head_def update_repo_once_def LOCAL_def REMOTE_def
      install_reqs_def echo_def others_def Let_def checkout0_def interval0_def)

section \<open>The supervisor's exit status\<close>







lemma git_entrypoint_watches:
  "\<exists>s4. (\<forall>envs. git_entrypoint U Started env0 envs s = watcher U envs s4)
       \<and> pid_file s4 = Some (next_pid s) \<and> APP_PID s4 = next_pid s"
proof -
  let ?s3 = "spawn (echo ''[app] starting'' (snd (update_repo_once U env0 s)))"
  let ?s4 = "?s3\<lparr>pid_file := Some (APP_PID ?s3)\<rparr>"
  have "\<forall>envs. git_entrypoint U Started env0 envs s = watcher U envs ?s4"
    by (simp add: git_entrypoint_def Let_def)
  moreover have "pid_file ?s4 = Some (next_pid s)" "APP_PID ?s4 = next_pid s"
    by (simp_all add: spawn_fields echo_fields update_repo_once_frame)
  ultimately show ?thesis by blast
qed




section \<open>git-entrypoint.sh never relaunches\<close>

lemma watcher_goes_on:
  assumes "pid_file w = Some p" "child_exit env = None" "sleep_ok env"
    and "fst (update_repo_once U env (others env w)) \<noteq> 0" "term_exit env = None"
  shows "watcher U (env # envs) w =
           watcher U envs (emit (Kill SIGTERM p)
             (echo ''[git] changes detected -> terminating app for restart''
               (snd (update_repo_once U env (others env w)))))"
  using assms by (simp add: Let_def echo_fields update_repo_once_frame fields_others)

text \<open>
  Claim C10, as the code has it. git-entrypoint.sh starts the application exactly once:
  whatever happens, the only child ever spawned is the one spawned before the watcher
  starts, whose pid is in \<^verbatim>\<open>/tmp/app.pid\<close>. When \<open>update_repo_once\<close> reports a change to
  the watcher, the watcher sends SIGTERM to the pid in that file. When the child exits on
  that, the final \<^verbatim>\<open>wait\<close> returns and the supervisor exits with the child's status;
  when the child does not exit, the supervisor does not exit either and the watcher goes
  on polling.
\<close>

theorem watcher_terminates_and_never_relaunches:
  "filter is_spawn (trace (state_of (git_entrypoint U app env0 envs s)))
       = filter is_spawn (trace s) @ [Spawn (next_pid s)]
   \<and> (\<exists>s4. (\<forall>envs. git_entrypoint U Started env0 envs s = watcher U envs s4)
          \<and> pid_file s4 = Some (next_pid s) \<and> APP_PID s4 = next_pid s)
   \<and> filter is_spawn (trace (state_of (watcher U envs w))) = filter is_spawn (trace w)
   \<and> (pid_file w = Some p \<and> child_exit env = None \<and> sleep_ok env
        \<and> fst (update_repo_once U env (others env w)) \<noteq> 0 \<longrightarrow>
        Kill SIGTERM p \<in> set (fresh w (state_of (watcher U (env # envs) w)))
      \<and> (\<forall>c. term_exit env = Some c \<longrightarrow>
            watcher U (env # envs) w =
              Exited c (emit (Kill SIGTERM p)
                (echo ''[git] changes detected -> terminating app for restart''
                  (snd (update_repo_once U env (others env w))))))
      \<and> (term_exit env = None \<longrightarrow>
            watcher U (env # envs) w =
              watcher U envs (emit (Kill SIGTERM p)
                (echo ''[git] changes detected -> terminating app for restart''
                  (snd (update_repo_once U env (others env w)))))))"
proof (intro conjI impI allI)
  show "filter is_spawn (trace (state_of (git_entrypoint U app env0 envs s)))
       = filter is_spawn (trace s) @ [Spawn (next_pid s)]"
    by (rule git_entrypoint_spawns)
  show "\<exists>s4. (\<forall>envs. git_entrypoint U Started env0 envs s = watcher U envs s4)
          \<and> pid_file s4 = Some (next_pid s) \<and> APP_PID s4 = next_pid s"
    by (rule git_entrypoint_watches)
  show "filter is_spawn (trace (state_of (watcher U envs w))) = filter is_spawn (trace w)"
    by (rule watcher_spawns)
  show "Kill SIGTERM p \<in> set (fresh w (state_of (watcher U (env # envs) w)))"
    if "pid_file w = Some p \<and> child_exit env = None \<and> sleep_ok env
        \<and> fst (update_repo_once U env (others env w)) \<noteq> 0"
    using that by (intro watcher_detects(1)) simp_all
  show "watcher U (env # envs) w =
              Exited c (emit (Kill SIGTERM p)
                (echo ''[git] changes detected -> terminating app for restart''
                  (snd (update_repo_once U env (others env w)))))"
    if "pid_file w = Some p \<and> child_exit env = None \<and> sleep_ok env
        \<and> fst (update_repo_once U env (others env w)) \<noteq> 0" "term_exit env = Some c" for c
    using that by (intro watcher_detects(2)) simp_all
  show "watcher U (env # envs) w =
              watcher U envs (emit (Kill SIGTERM p)
                (echo ''[git] changes detected -> terminating app for restart''
                  (snd (update_repo_once U env (others env w)))))"
    if "pid_file w = Some p \<and> child_exit env = None \<and> sleep_ok env
        \<and> fst (update_repo_once U env (others env w)) \<noteq> 0" "term_exit env = None"
    using that by (intro watcher_goes_on) simp_all
qed

theorem watcher_terminates_and_never_relaunches_witness:
  "pid_file checkout0 = Some 100 \<and> child_exit interval0 = None \<and> sleep_ok interval0
   \<and> fst (update_repo_once ''https://example.org/panel.git'' interval0
        (others interval0 checkout0)) \<noteq> 0
   \<and> term_exit interval0 = Some 143
   \<and> watcher ''https://example.org/panel.git'' [interval0] checkout0
     = Exited 143 (state_of (watcher ''https://example.org/panel.git'' [interval0] checkout0))
   \<and> trace (state_of (watcher ''https://example.org/panel.git'' [interval0] checkout0))
     = [Flock, GitSetUrl, GitFetch True, Echo ''[git] update: abc123 -> def456'',
        GitReset ''origin/BRANCH'' True,
        Echo ''[deps] installing requirements...'', PipInstall True, Unlock,
        Echo ''[git] changes detected -> terminating app for restart'', Kill SIGTERM 100]
   \<and> term_exit (interval0\<lparr>term_exit := None\<rparr>) = None
   \<and> watcher ''https://example.org/panel.git'' [interval0\<lparr>term_exit := None\<rparr>] checkout0
     = Running (state_of
         (watcher ''https://example.org/panel.git'' [interval0\<lparr>term_exit := None\<rparr>] checkout0))"
proof -
  let ?U = "''https://example.org/panel.git''"
  have h: "pid_file checkout0 = Some 100 \<and> child_exit interval0 = None \<and> sleep_ok interval0
        \<and> fst (update_repo_once ?U interval0 (others interval0 checkout0)) \<noteq> 0"
    by (simp add: update_repo_once_def LOCAL_def REMOTE_def Let_def git_fetch_fields
        emit_fields others_def checkout0_def interval0_def)
  have t: "term_exit interval0 = Some 143" by (simp add: interval0_def)
  have x: "watcher ?U [interval0] checkout0 =
              Exited 143 (emit (Kill SIGTERM 100)
                (echo ''[git] changes detected -> terminating app for restart''
                  (snd (update_repo_once ?U interval0 (others interval0 checkout0)))))"
    by (rule watcher_terminates_and_never_relaunches [THEN conjunct2, THEN conjunct2,
          THEN conjunct2, THEN mp, OF h, THEN conjunct2, THEN conjunct1, THEN spec, THEN mp,
          OF t])
  have tr: "trace (state_of (watcher ?U [interval0] checkout0))
     = [Flock, GitSetUrl, GitFetch True, Echo ''[git] update: abc123 -> def456'',
        GitReset ''origin/BRANCH'' True,
        Echo ''[deps] installing requirements...'', PipInstall True, Unlock,
        Echo ''[git] changes detected -> terminating app for restart'', Kill SIGTERM 100]"
    "watcher ?U [interval0\<lparr>term_exit := None\<rparr>] checkout0
     = Running (state_of (watcher ?U [interval0\<lparr>term_exit := None\<rparr>] checkout0))"
    by (simp_all add: update_repo_once_def LOCAL_def REMOTE_def install_reqs_def git_reset_def
        git_fetch_def echo_def emit_def others_def Let_def checkout0_def interval0_def)
  show ?thesis using h t x tr by simp
qed

text \<open>
  The claim as written says that the supervisor exits once the watcher has sent the
  signal. With a child that does not exit on SIGTERM it does not: started with nothing to
  pull, the watcher sees the remote at \<open>def456\<close> in the first interval and sends SIGTERM,
  and after that interval and the next the supervisor is still waiting, with the one
  child it spawned at the start.
\<close>

theorem supervisor_survives_ignored_sigterm_counterexample:
  "term_exit (interval0\<lparr>term_exit := None\<rparr>) = None
   \<and> git_entrypoint ''https://example.org/panel.git'' Started
        (interval0\<lparr>fetch := Fetched (Some ''abc123'')\<rparr>)
        [interval0\<lparr>term_exit := None\<rparr>, interval0\<lparr>term_exit := None\<rparr>] checkout0
     = Running (state_of (git_entrypoint ''https://example.org/panel.git'' Started
        (interval0\<lparr>fetch := Fetched (Some ''abc123'')\<rparr>)
        [interval0\<lparr>term_exit := None\<rparr>, interval0\<lparr>term_exit := None\<rparr>] checkout0))
   \<and> filter is_kill (trace (state_of (git_entrypoint ''https://example.org/panel.git'' Started
        (interval0\<lparr>fetch := Fetched (Some ''abc123'')\<rparr>)
        [interval0\<lparr>term_exit := None\<rparr>, interval0\<lparr>term_exit := None\<rparr>] checkout0)))
     = [Kill SIGTERM 101]
   \<and> filter is_spawn (trace (state_of (git_entrypoint ''https://example.org/panel.git'' Started
        (interval0\<lparr>fetch := Fetched (Some ''abc123'')\<rparr>)
        [interval0\<lparr>term_exit := None\<rparr>, interval0\<lparr>term_exit := None\<rparr>] checkout0)))
     = [Spawn 101]"
  by (simp add: git_entrypoint_def update_repo_once_def LOCAL_def REMOTE_def install_reqs_def
      git_reset_def git_fetch_def echo_def emit_def spawn_def others_def Let_def checkout0_def
      interval0_def)

end
